theory Spec2Isabelle
  imports Main
begin

section \<open>Values exchanged with the array\<close>

text \<open>
  The helper talks JSON with the array. A response body is whatever JSON the array
  sends, so the model keeps the whole value space of \<^verbatim>\<open>res.json()\<close>: null (Python
  \<^verbatim>\<open>None\<close>), booleans, integers, strings, lists and dictionaries. A dictionary is an
  association list read with \<open>map_of\<close> (the first binding of a key is the one the
  dictionary holds). JSON floats are outside the model.
\<close>

datatype json =
    JNull
  | JBool bool
  | JInt int
  | JStr string
  | JList "json list"
  | JObj "(string \<times> json) list"

text \<open>
  A formatted message is kept as its fragments: literal text, and values rendered by
  \<^verbatim>\<open>%s\<close> whose Python rendering (the \<^verbatim>\<open>str\<close> of a dictionary) is not spelled out.
\<close>

datatype fragment = Txt string | Val json

text \<open>
  The exceptions the helper raises itself (from \<^verbatim>\<open>manila.exception\<close>) and the Python
  exceptions its dictionary reads, conversions and attribute reads raise.
\<close>

datatype exn =
    ShareBackendException "fragment list"
  | InvalidShare "fragment list"
  | InvalidInput "fragment list"
  | InvalidShareSnapshot "fragment list"
  | KeyError string
  | TypeError
  | ValueError
  | AttributeError

subsection \<open>Python operations on these values\<close>

text \<open>\<^verbatim>\<open>v[k]\<close> for a string key: only a dictionary can be read that way.\<close>

fun getitem :: "json \<Rightarrow> string \<Rightarrow> exn + json" where
  "getitem (JObj kvs) k = (case map_of kvs k of None \<Rightarrow> Inl (KeyError k) | Some v \<Rightarrow> Inr v)"
| "getitem _ k = Inl TypeError"

text \<open>\<^verbatim>\<open>result['error']['code']\<close>\<close>

definition error_code :: "json \<Rightarrow> exn + json" where
  "error_code result =
     (case getitem result ''error'' of
        Inl e \<Rightarrow> Inl e
      | Inr err \<Rightarrow> getitem err ''code'')"

text \<open>
  \<^verbatim>\<open>v == n\<close> for an integer \<open>n\<close>: Python's \<^verbatim>\<open>True\<close> and \<^verbatim>\<open>False\<close> equal 1 and
  0; no string, list, dictionary or \<^verbatim>\<open>None\<close> equals an integer.
\<close>

fun eq_int :: "json \<Rightarrow> int \<Rightarrow> bool" where
  "eq_int (JInt m) n = (m = n)"
| "eq_int (JBool b) n = ((if b then 1 else 0) = n)"
| "eq_int _ n = False"

text \<open>\<^verbatim>\<open>v == s\<close> for a string \<open>s\<close>.\<close>

fun eq_str :: "json \<Rightarrow> string \<Rightarrow> bool" where
  "eq_str (JStr t) s = (t = s)"
| "eq_str _ s = False"

text \<open>Contiguous substring test, Python's \<^verbatim>\<open>a in b\<close> on two strings.\<close>

fun is_substr :: "string \<Rightarrow> string \<Rightarrow> bool" where
  "is_substr a [] = (a = [])"
| "is_substr a (c # cs) = (take (length a) (c # cs) = a \<or> is_substr a cs)"

text \<open>
  \<^verbatim>\<open>k in v\<close> for a string \<open>k\<close>: key membership in a dictionary, element membership
  in a list, substring in a string; the other values are not iterable.
\<close>

fun contains :: "json \<Rightarrow> string \<Rightarrow> exn + bool" where
  "contains (JObj kvs) k = Inr (k \<in> set (map fst kvs))"
| "contains (JList xs) k = Inr (JStr k \<in> set xs)"
| "contains (JStr s) k = Inr (is_substr k s)"
| "contains _ k = Inl TypeError"

section \<open>The helper's state and the HTTP layer\<close>

text \<open>
  The constants of \<^verbatim>\<open>manila.share.drivers.huawei.constants\<close> that \<^verbatim>\<open>helper.py\<close>
  reads. The module is not part of the sources at hand, so its values are a parameter
  of every function that uses one.
\<close>

record constants =
  SOCKET_TIMEOUT :: int
  LOGIN_SOCKET_TIMEOUT :: int
  ERROR_CONNECT_TO_SERVER :: int
  ERROR_UNAUTHORIZED_TO_SERVER :: int
  ERROR_USER_OR_GROUP_NOT_EXIST :: int
  ERROR_REPLICATION_PAIR_NOT_EXIST :: int
  ERROR_HYPERMETRO_NOT_EXIST :: int
  MSG_SNAPSHOT_NOT_FOUND :: int
  PWD_EXPIRED_OR_INITIAL :: "int list"
  STATUS_QOS_ACTIVE :: string
  MAX_FS_NUM_IN_QOS :: int
  QOS_NAME_PREFIX :: string
  OPTS_QOS_VALUE :: "string list"

text \<open>
  One request as it is handed to \<^verbatim>\<open>requests.Session\<close>: the lower-cased method that
  names the session function, the URL, the headers the session holds at that moment,
  the \<^verbatim>\<open>data\<close> keyword (absent when \<^verbatim>\<open>do_call\<close> got none) and the timeout. A body
  \<open>Some j\<close> stands for the text \<^verbatim>\<open>jsonutils.dumps(j)\<close>, which is never empty.
\<close>

record request =
  req_method :: string
  req_url :: string
  req_headers :: "(string \<times> json) list"
  req_data :: "json option"
  req_timeout :: int

text \<open>
  What the \<^verbatim>\<open>requests\<close> library gives back. \<open>status_code\<close> is the HTTP status,
  \<open>error_text\<close> the text of the \<^verbatim>\<open>HTTPError\<close> that \<^verbatim>\<open>raise_for_status()\<close> builds for
  this response, \<open>body\<close> the value of \<^verbatim>\<open>res.json()\<close> (\<open>None\<close> when the body is not
  JSON and \<^verbatim>\<open>json()\<close> raises \<^verbatim>\<open>ValueError\<close>).
\<close>

record response =
  status_code :: int
  error_text :: string
  body :: "json option"

datatype outcome =
    Failed             \<comment> \<open>the session function raised: no response\<close>
  | Returned response

text \<open>
  The array and the network between: a deterministic function from the requests sent
  so far (oldest first) and the present request to what comes back.
\<close>

type_synonym network = "request list \<Rightarrow> request \<Rightarrow> outcome"

text \<open>
  The mutable part of a \<^verbatim>\<open>RestHelper\<close>. \<open>session\<close> is \<^verbatim>\<open>self.session\<close>, given by its
  headers (\<open>None\<close> until \<^verbatim>\<open>init_http_head\<close> has run). \<open>url\<close> is \<^verbatim>\<open>self.url\<close>; the
  attribute is created by \<^verbatim>\<open>init_http_head\<close> together with the session, so reading it
  before fails exactly when the session is \<open>None\<close>. \<open>wire\<close> records every request
  handed to the session, oldest first; the program never reads it.
\<close>

record helper =
  url :: "string option"
  session :: "(string \<times> json) list option"
  wire :: "request list"

text \<open>\<^verbatim>\<open>d[k] = v\<close> on a dictionary kept as an association list.\<close>

definition dict_set :: "(string \<times> 'v) list \<Rightarrow> string \<Rightarrow> 'v \<Rightarrow> (string \<times> 'v) list" where
  "dict_set d k v = (if k \<in> set (map fst d) then map (\<lambda>(k', v'). if k' = k then (k', v) else (k', v')) d
                     else d @ [(k, v)])"

definition init_http_head :: "helper \<Rightarrow> helper" where
  "init_http_head s =
     s\<lparr>url := None,
       session := Some [(''Connection'', JStr ''keep-alive''),
                        (''Content-Type'', JStr ''application/json'')]\<rparr>"

text \<open>Python's truth value of \<^verbatim>\<open>self.url\<close> and of an optional string argument.\<close>

definition truthy_str :: "string option \<Rightarrow> bool" where
  "truthy_str v = (case v of None \<Rightarrow> False | Some t \<Rightarrow> t \<noteq> [])"

text \<open>\<^verbatim>\<open>raise_for_status()\<close> of \<^verbatim>\<open>requests\<close> raises for the 4xx and 5xx statuses.\<close>

definition is_http_error :: "int \<Rightarrow> bool" where
  "is_http_error sc = (400 \<le> sc \<and> sc < 600)"

definition error_envelope :: "json \<Rightarrow> string \<Rightarrow> json" where
  "error_envelope c d = JObj [(''error'', JObj [(''code'', c), (''description'', JStr d)])]"

definition ascii_lower :: "char \<Rightarrow> char" where
  "ascii_lower c = (let n = (of_char c :: nat) in if 65 \<le> n \<and> n \<le> 90 then char_of (n + 32) else c)"

text \<open>\<^verbatim>\<open>method or 'POST'\<close>\<close>

definition effective_method :: "string option \<Rightarrow> string" where
  "effective_method method = (if truthy_str method then the method else ''POST'')"

text \<open>
  The request \<^verbatim>\<open>do_call\<close> hands to the session: the path is prefixed with the base URL
  when one is set, and the session function is the one named by the lower-cased method.
\<close>

definition make_request :: "helper \<Rightarrow> (string \<times> json) list \<Rightarrow> string \<Rightarrow> json option
    \<Rightarrow> string \<Rightarrow> int \<Rightarrow> request" where
  "make_request s hdrs url0 data m calltimeout =
     \<lparr>req_method = map ascii_lower m,
      req_url = (if truthy_str (url s) then the (url s) @ url0 else url0),
      req_headers = hdrs,
      req_data = data,
      req_timeout = calltimeout\<rparr>"

text \<open>
  What \<^verbatim>\<open>do_call\<close> makes of an outcome: the envelope with the connect-to-server code
  when the session function raised, the envelope with the HTTP status and the text of
  the \<^verbatim>\<open>HTTPError\<close> when \<^verbatim>\<open>raise_for_status()\<close> raised, the parsed body otherwise.
\<close>

definition result_of :: "constants \<Rightarrow> outcome \<Rightarrow> exn + json" where
  "result_of K out =
     (case out of
        Failed \<Rightarrow>
          Inr (error_envelope (JInt (ERROR_CONNECT_TO_SERVER K)) ''Connect server error'')
      | Returned res \<Rightarrow>
          if is_http_error (status_code res)
          then Inr (error_envelope (JInt (status_code res)) (error_text res))
          else (case body res of
                  None \<Rightarrow> Inl ValueError
                | Some result \<Rightarrow> Inr result))"

text \<open>
  \<^verbatim>\<open>do_call\<close>. Without a session the read of \<^verbatim>\<open>self.url\<close> fails; an unknown method
  raises before anything is sent; otherwise the request goes to the network.
\<close>

definition do_call :: "network \<Rightarrow> constants \<Rightarrow> helper \<Rightarrow> string \<Rightarrow> json option \<Rightarrow> string option
    \<Rightarrow> int \<Rightarrow> (exn + json) \<times> helper" where
  "do_call net K s url0 data method calltimeout =
     (case session s of
        None \<Rightarrow> (Inl AttributeError, s)
      | Some hdrs \<Rightarrow>
          let m = effective_method method in
          if m \<in> set [''POST'', ''PUT'', ''GET'', ''DELETE''] then
            let req = make_request s hdrs url0 data m calltimeout
            in (result_of K (net (wire s) req), s\<lparr>wire := wire s @ [req]\<rparr>)
          else (Inl (ShareBackendException
                       [Txt ''Request method '', Txt m, Txt '' is invalid.'']), s))"

section \<open>The result contract\<close>

text \<open>
  \<^verbatim>\<open>_assert_rest_result\<close> (the leading underscore of a Python name is dropped
  throughout). The reason of the error is the format
  \<^verbatim>\<open>'%(err)s\nresult: %(res)s.'\<close> filled with the caller's message and the result.
\<close>

definition assert_rest_result :: "json \<Rightarrow> string \<Rightarrow> exn + unit" where
  "assert_rest_result result err_str =
     (case error_code result of
        Inl e \<Rightarrow> Inl e
      | Inr c \<Rightarrow>
          if \<not> eq_int c 0
          then Inl (InvalidShare [Txt err_str, Txt [CHR 0x0A], Txt ''result: '', Val result, Txt ''.''])
          else Inr ())"

text \<open>\<^verbatim>\<open>_assert_data_in_result\<close>\<close>

definition assert_data_in_result :: "json \<Rightarrow> string \<Rightarrow> exn + unit" where
  "assert_data_in_result result msg =
     (case contains result ''data'' of
        Inl e \<Rightarrow> Inl e
      | Inr present \<Rightarrow>
          if \<not> present
          then Inl (InvalidShare [Txt msg, Txt ('' '' @ [CHR 0x22] @ ''data'' @ [CHR 0x22] @ '' was not in result.'')])
          else Inr ())"

section \<open>The session manager\<close>

text \<open>
  \<^verbatim>\<open>_get_login_info\<close> reads the three entries from the configuration file; the file
  and its parsing are outside the helper's logic, so \<^verbatim>\<open>login\<close> takes what it returns.
\<close>

record login_info =
  RestURL :: string
  UserName :: string
  UserPassword :: string

text \<open>\<^verbatim>\<open>s.split(c)\<close> for a separator of one character: never an empty list.\<close>

fun split_on :: "char \<Rightarrow> string \<Rightarrow> string list" where
  "split_on c [] = [[]]"
| "split_on c (x # xs) =
     (if x = c then [] # split_on c xs
      else (case split_on c xs of
              [] \<Rightarrow> [[x]]
            | w # ws \<Rightarrow> (x # w) # ws))"

text \<open>
  \<^verbatim>\<open>item_url.strip('').strip('\n')\<close>: stripping the empty set of characters changes
  nothing, the second call removes the newlines at both ends.
\<close>

definition strip_newlines :: "string \<Rightarrow> string" where
  "strip_newlines t =
     rev (dropWhile (\<lambda>c. c = CHR 0x0A) (rev (dropWhile (\<lambda>c. c = CHR 0x0A) t)))"

text \<open>\<^verbatim>\<open>logout\<close>\<close>

definition logout :: "network \<Rightarrow> constants \<Rightarrow> helper \<Rightarrow> (exn + unit) \<times> helper" where
  "logout net K s =
     (case session s of
        None \<Rightarrow> (Inl AttributeError, s)
      | Some hdrs \<Rightarrow>
          if truthy_str (url s) then
            (case do_call net K s ''/sessions'' None (Some ''DELETE'') (SOCKET_TIMEOUT K) of
               (Inl e, s1) \<Rightarrow> (Inl e, s1)
             | (Inr result, s1) \<Rightarrow> (assert_rest_result result ''Logout session error.'', s1))
          else (Inr (), s))"

text \<open>
  The test that sends \<^verbatim>\<open>login\<close> on to the next URL, evaluated left to right as
  Python's \<^verbatim>\<open>or\<close> does: the code is not 0, or there is no \<^verbatim>\<open>"data"\<close>, or the device
  id is \<^verbatim>\<open>None\<close>.
\<close>

definition login_failed :: "json \<Rightarrow> exn + bool" where
  "login_failed result =
     (case error_code result of
        Inl e \<Rightarrow> Inl e
      | Inr c \<Rightarrow>
          if \<not> eq_int c 0 then Inr True
          else (case contains result ''data'' of
                  Inl e \<Rightarrow> Inl e
                | Inr present \<Rightarrow>
                    if \<not> present then Inr True
                    else (case getitem result ''data'' of
                            Inl e \<Rightarrow> Inl e
                          | Inr d \<Rightarrow>
                              (case getitem d ''deviceid'' of
                                 Inl e \<Rightarrow> Inl e
                               | Inr dev \<Rightarrow> Inr (dev = JNull)))))"

text \<open>
  What \<^verbatim>\<open>login\<close> does with a response that passed the test, for the candidate
  \<open>item_url\<close>: store the base URL and the token, check the account state, log out and
  raise when the password has expired or is the initial one. The state is updated
  statement by statement, so an exception keeps what was stored before it.
\<close>

definition login_accept :: "network \<Rightarrow> constants \<Rightarrow> string \<Rightarrow> json \<Rightarrow> helper
    \<Rightarrow> (exn + string) \<times> helper" where
  "login_accept net K item_url result s =
     (case getitem result ''data'' of
        Inl e \<Rightarrow> (Inl e, s)
      | Inr d \<Rightarrow>
     (case getitem d ''deviceid'' of
        Inl e \<Rightarrow> (Inl e, s)
      | Inr (JStr deviceid) \<Rightarrow>
          let s1 = s\<lparr>url := Some (item_url @ deviceid)\<rparr> in
          (case getitem d ''iBaseToken'' of
             Inl e \<Rightarrow> (Inl e, s1)
           | Inr token \<Rightarrow>
               (case session s1 of
                  None \<Rightarrow> (Inl AttributeError, s1)
                | Some hdrs \<Rightarrow>
                    let s2 = s1\<lparr>session := Some (dict_set hdrs ''iBaseToken'' token)\<rparr> in
                    (case getitem d ''accountstate'' of
                       Inl e \<Rightarrow> (Inl e, s2)
                     | Inr state \<Rightarrow>
                         if \<exists>n \<in> set (PWD_EXPIRED_OR_INITIAL K). eq_int state n then
                           (case logout net K s2 of
                              (Inl e, s3) \<Rightarrow> (Inl e, s3)
                            | (Inr u, s3) \<Rightarrow>
                                (Inl (ShareBackendException
                                   [Txt ''Password has expired or initial, please change the password.'']),
                                 s3))
                         else (Inr deviceid, s2))))
      | Inr other \<Rightarrow> (Inl TypeError, s)))"

text \<open>The loop of \<^verbatim>\<open>login\<close> over the candidate URLs, and what follows it.\<close>

fun login_loop :: "network \<Rightarrow> constants \<Rightarrow> login_info \<Rightarrow> string list \<Rightarrow> helper
    \<Rightarrow> (exn + string) \<times> helper" where
  "login_loop net K li [] s = (Inl (InvalidShare [Txt ''All url login fail.'']), s)"
| "login_loop net K li (item_url # rest) s =
     (case do_call net K (init_http_head s) (strip_newlines item_url @ ''xx/sessions'')
             (Some (JObj [(''username'', JStr (UserName li)),
                          (''password'', JStr (UserPassword li)),
                          (''scope'', JStr ''0'')]))
             None (LOGIN_SOCKET_TIMEOUT K) of
        (Inl e, s1) \<Rightarrow> (Inl e, s1)
      | (Inr result, s1) \<Rightarrow>
          (case login_failed result of
             Inl e \<Rightarrow> (Inl e, s1)
           | Inr True \<Rightarrow> login_loop net K li rest s1
           | Inr False \<Rightarrow> login_accept net K item_url result s1))"

definition login :: "network \<Rightarrow> constants \<Rightarrow> login_info \<Rightarrow> helper \<Rightarrow> (exn + string) \<times> helper" where
  "login net K li s = login_loop net K li (split_on CHR '';'' (RestURL li)) s"

text \<open>
  \<^verbatim>\<open>call\<close>. The lock of \<^verbatim>\<open>utils.synchronized\<close> orders concurrent callers and has no
  part in what one call computes.
\<close>

definition is_relogin_code :: "constants \<Rightarrow> json \<Rightarrow> bool" where
  "is_relogin_code K c =
     (eq_int c (ERROR_CONNECT_TO_SERVER K) \<or> eq_int c (ERROR_UNAUTHORIZED_TO_SERVER K))"

definition call :: "network \<Rightarrow> constants \<Rightarrow> login_info \<Rightarrow> helper \<Rightarrow> string \<Rightarrow> json option
    \<Rightarrow> string option \<Rightarrow> (exn + json) \<times> helper" where
  "call net K li s url0 data method =
     (case do_call net K s url0 data method (SOCKET_TIMEOUT K) of
        (Inl e, s1) \<Rightarrow> (Inl e, s1)
      | (Inr result, s1) \<Rightarrow>
          (case error_code result of
             Inl e \<Rightarrow> (Inl e, s1)
           | Inr c \<Rightarrow>
               if is_relogin_code K c then
                 (case login net K li s1 of
                    (Inl e, s2) \<Rightarrow> (Inl e, s2)
                  | (Inr deviceid, s2) \<Rightarrow> do_call net K s2 url0 data method (SOCKET_TIMEOUT K))
               else (Inr result, s1)))"

section \<open>Resource operations\<close>

subsection \<open>Deleting pairs and snapshots\<close>

definition delete_replication_pair :: "network \<Rightarrow> constants \<Rightarrow> login_info \<Rightarrow> helper \<Rightarrow> string
    \<Rightarrow> (exn + unit) \<times> helper" where
  "delete_replication_pair net K li s pair_id =
     (case call net K li s (''/REPLICATIONPAIR/'' @ pair_id) None (Some ''DELETE'') of
        (Inl e, s1) \<Rightarrow> (Inl e, s1)
      | (Inr result, s1) \<Rightarrow>
          (case error_code result of
             Inl e \<Rightarrow> (Inl e, s1)
           | Inr c \<Rightarrow>
               if eq_int c (ERROR_REPLICATION_PAIR_NOT_EXIST K) then (Inr (), s1)
               else (assert_rest_result result
                       (''Failed to delete replication pair '' @ pair_id @ ''.''), s1)))"

definition delete_hypermetro_pair :: "network \<Rightarrow> constants \<Rightarrow> login_info \<Rightarrow> helper \<Rightarrow> string
    \<Rightarrow> (exn + unit) \<times> helper" where
  "delete_hypermetro_pair net K li s pair_id =
     (case call net K li s (''/HyperMetroPair/'' @ pair_id) None (Some ''DELETE'') of
        (Inl e, s1) \<Rightarrow> (Inl e, s1)
      | (Inr result, s1) \<Rightarrow>
          (case error_code result of
             Inl e \<Rightarrow> (Inl e, s1)
           | Inr c \<Rightarrow>
               if eq_int c (ERROR_HYPERMETRO_NOT_EXIST K) then (Inr (), s1)
               else (assert_rest_result result
                       (''Delete HyperMetro pair '' @ pair_id @ '' error.''), s1)))"

text \<open>\<^verbatim>\<open>_delete_snapshot\<close>\<close>

definition delete_snapshot :: "network \<Rightarrow> constants \<Rightarrow> login_info \<Rightarrow> helper \<Rightarrow> string
    \<Rightarrow> (exn + unit) \<times> helper" where
  "delete_snapshot net K li s snap_id =
     (case call net K li s (''/FSSNAPSHOT/'' @ snap_id)
             (Some (JObj [(''TYPE'', JStr ''48''), (''ID'', JStr snap_id)])) (Some ''DELETE'') of
        (Inl e, s1) \<Rightarrow> (Inl e, s1)
      | (Inr result, s1) \<Rightarrow> (assert_rest_result result ''Delete snapshot error.'', s1))"

text \<open>\<^verbatim>\<open>_check_snapshot_id_exist\<close>, applied to the result of a snapshot query.\<close>

definition check_snapshot_id_exist :: "constants \<Rightarrow> json \<Rightarrow> exn + bool" where
  "check_snapshot_id_exist K snapshot_info =
     (case error_code snapshot_info of
        Inl e \<Rightarrow> Inl e
      | Inr c \<Rightarrow>
          if eq_int c (MSG_SNAPSHOT_NOT_FOUND K) then Inr False
          else if eq_int c 0 then Inr True
          else Inl (InvalidShareSnapshot
                      [Txt ''Check the snapshot id exists error!'', Txt [CHR 0x0A], Txt ''result: '',
                       Val snapshot_info, Txt ''.'']))"

subsection \<open>Granting CIFS access\<close>

text \<open>
  \<^verbatim>\<open>{'vstoreId': vstore_id} if vstore_id else None\<close>, then serialised when it is not
  \<^verbatim>\<open>None\<close>.
\<close>

definition vstore_params :: "string option \<Rightarrow> json option" where
  "vstore_params vstore_id =
     (if truthy_str vstore_id then Some (JObj [(''vstoreId'', JStr (the vstore_id))]) else None)"

text \<open>
  The local function \<^verbatim>\<open>send_rest\<close> of \<^verbatim>\<open>_allow_cifs_access_rest\<close>, with the share id
  and the access level of its closure as arguments.
\<close>

definition send_rest :: "network \<Rightarrow> constants \<Rightarrow> login_info \<Rightarrow> helper \<Rightarrow> string \<Rightarrow> string
    \<Rightarrow> string \<Rightarrow> string \<Rightarrow> string option \<Rightarrow> (exn + bool) \<times> helper" where
  "send_rest net K li s share_id access_level access_to domain_type vstore_id =
     (let access = [(''NAME'', JStr access_to), (''PARENTID'', JStr share_id),
                    (''PERMISSION'', JStr access_level), (''DOMAINTYPE'', JStr domain_type)];
          access' = (if truthy_str vstore_id
                     then dict_set access ''vstoreId'' (JStr (the vstore_id)) else access)
      in case call net K li s ''/CIFS_SHARE_AUTH_CLIENT'' (Some (JObj access')) (Some ''POST'') of
           (Inl e, s1) \<Rightarrow> (Inl e, s1)
         | (Inr result, s1) \<Rightarrow>
             (case error_code result of
                Inl e \<Rightarrow> (Inl e, s1)
              | Inr c \<Rightarrow>
                  if eq_int c 0 then (Inr True, s1)
                  else if \<not> eq_int c (ERROR_USER_OR_GROUP_NOT_EXIST K) then
                    (case assert_rest_result result ''Allow access error.'' of
                       Inl e \<Rightarrow> (Inl e, s1)
                     | Inr u \<Rightarrow> (Inr False, s1))
                  else (Inr False, s1)))"

text \<open>The two attempts of one branch: the name as it is, then the name after \<^verbatim>\<open>@\<close>.\<close>

definition user_then_group :: "network \<Rightarrow> constants \<Rightarrow> login_info \<Rightarrow> helper \<Rightarrow> string \<Rightarrow> string
    \<Rightarrow> string \<Rightarrow> string \<Rightarrow> string option \<Rightarrow> (exn + unit) \<times> helper" where
  "user_then_group net K li s share_id access_level access_to domain_type vstore =
     (case send_rest net K li s share_id access_level access_to domain_type vstore of
        (Inl e, s1) \<Rightarrow> (Inl e, s1)
      | (Inr True, s1) \<Rightarrow> (Inr (), s1)
      | (Inr False, s1) \<Rightarrow>
          (case send_rest net K li s1 share_id access_level (''@'' @ access_to) domain_type vstore of
             (Inl e, s2) \<Rightarrow> (Inl e, s2)
           | (Inr True, s2) \<Rightarrow> (Inr (), s2)
           | (Inr False, s2) \<Rightarrow> (Inl (InvalidShare [Txt ''Allow access error.'']), s2)))"

text \<open>
  \<^verbatim>\<open>_allow_cifs_access_rest\<close>: the domain type is \<^verbatim>\<open>'2'\<close> (local) for a name without a
  backslash and \<^verbatim>\<open>'0'\<close> (AD) for a name with one.
\<close>

definition allow_cifs_access_rest :: "network \<Rightarrow> constants \<Rightarrow> login_info \<Rightarrow> helper \<Rightarrow> string
    \<Rightarrow> string \<Rightarrow> string \<Rightarrow> string option \<Rightarrow> (exn + unit) \<times> helper" where
  "allow_cifs_access_rest net K li s share_id access_to access_level vstore =
     (if CHR 0x5C \<notin> set access_to
      then user_then_group net K li s share_id access_level access_to ''2'' vstore
      else user_then_group net K li s share_id access_level access_to ''0'' vstore)"

subsection \<open>More Python operations, used by the scans\<close>

text \<open>Python's truth value of a JSON value.\<close>

fun truthy :: "json \<Rightarrow> bool" where
  "truthy JNull = False"
| "truthy (JBool b) = b"
| "truthy (JInt n) = (n \<noteq> 0)"
| "truthy (JStr t) = (t \<noteq> [])"
| "truthy (JList xs) = (xs \<noteq> [])"
| "truthy (JObj kvs) = (kvs \<noteq> [])"

text \<open>\<^verbatim>\<open>v.get(k, default)\<close>: only a dictionary has the method.\<close>

fun dict_get :: "json \<Rightarrow> string \<Rightarrow> json \<Rightarrow> exn + json" where
  "dict_get (JObj kvs) k dflt = (case map_of kvs k of None \<Rightarrow> Inr dflt | Some v \<Rightarrow> Inr v)"
| "dict_get _ k dflt = Inl AttributeError"

text \<open>
  The items a \<^verbatim>\<open>for\<close> loop draws from a value: the elements of a list, the keys of a
  dictionary, the characters of a string; the other values are not iterable.
\<close>

fun py_iter :: "json \<Rightarrow> exn + json list" where
  "py_iter (JList xs) = Inr xs"
| "py_iter (JObj kvs) = Inr (map JStr (remdups (map fst kvs)))"
| "py_iter (JStr t) = Inr (map (\<lambda>c. JStr [c]) t)"
| "py_iter _ = Inl TypeError"

text \<open>Decimal digits of a natural number and of an integer: \<^verbatim>\<open>six.text_type(n)\<close>.\<close>

fun str_nat :: "nat \<Rightarrow> string" where
  "str_nat n = (if n < 10 then [char_of (48 + n)] else str_nat (n div 10) @ [char_of (48 + n mod 10)])"

definition str_int :: "int \<Rightarrow> string" where
  "str_int i = (if i < 0 then CHR ''-'' # str_nat (nat (- i)) else str_nat (nat i))"

text \<open>
  \<^verbatim>\<open>int(v)\<close>. For a string: blanks at both ends are dropped, then an optional sign and
  at least one ASCII digit must make up the rest (the underscores and the non-ASCII
  digits that Python 3 also accepts are outside the model and read as malformed).
\<close>

definition is_space :: "char \<Rightarrow> bool" where
  "is_space c = (of_char c \<in> {9, 10, 11, 12, 13, 32 :: nat})"

definition is_digit :: "char \<Rightarrow> bool" where
  "is_digit c = (48 \<le> (of_char c :: nat) \<and> (of_char c :: nat) \<le> 57)"

fun digits_value :: "string \<Rightarrow> nat \<Rightarrow> nat option" where
  "digits_value [] acc = Some acc"
| "digits_value (c # cs) acc =
     (if is_digit c then digits_value cs (acc * 10 + (of_char c - 48)) else None)"

definition unsigned_value :: "string \<Rightarrow> nat option" where
  "unsigned_value t = (if t = [] then None else digits_value t 0)"

definition int_of_string :: "string \<Rightarrow> exn + int" where
  "int_of_string t0 =
     (let t = rev (dropWhile is_space (rev (dropWhile is_space t0))) in
      case t of
        [] \<Rightarrow> Inl ValueError
      | c # cs \<Rightarrow>
          if c = CHR ''-'' then
            (case unsigned_value cs of None \<Rightarrow> Inl ValueError | Some n \<Rightarrow> Inr (- int n))
          else if c = CHR ''+'' then
            (case unsigned_value cs of None \<Rightarrow> Inl ValueError | Some n \<Rightarrow> Inr (int n))
          else (case unsigned_value t of None \<Rightarrow> Inl ValueError | Some n \<Rightarrow> Inr (int n)))"

fun py_int :: "json \<Rightarrow> exn + int" where
  "py_int (JInt n) = Inr n"
| "py_int (JBool b) = Inr (if b then 1 else 0)"
| "py_int (JStr t) = int_of_string t"
| "py_int _ = Inl TypeError"

text \<open>\<^verbatim>\<open>int(result['data']['COUNT'])\<close>\<close>

definition count_of :: "json \<Rightarrow> exn + int" where
  "count_of result =
     (case getitem result ''data'' of
        Inl e \<Rightarrow> Inl e
      | Inr d \<Rightarrow> (case getitem d ''COUNT'' of Inl e \<Rightarrow> Inl e | Inr v \<Rightarrow> py_int v))"

subsection \<open>Finding an access rule of a share\<close>

text \<open>\<^verbatim>\<open>_get_share_client_type\<close>\<close>

definition get_share_client_type :: "string \<Rightarrow> exn + string" where
  "get_share_client_type share_proto =
     (if share_proto = ''NFS'' then Inr ''NFS_SHARE_AUTH_CLIENT''
      else if share_proto = ''CIFS'' then Inr ''CIFS_SHARE_AUTH_CLIENT''
      else Inl (InvalidInput [Txt ''Invalid NAS protocol supplied: '', Txt share_proto, Txt ''.'']))"

text \<open>\<^verbatim>\<open>_get_access_count\<close>\<close>

definition get_access_count :: "network \<Rightarrow> constants \<Rightarrow> login_info \<Rightarrow> helper \<Rightarrow> string \<Rightarrow> string
    \<Rightarrow> string option \<Rightarrow> (exn + int) \<times> helper" where
  "get_access_count net K li s share_id share_client_type vstore_id =
     (case call net K li s (''/'' @ share_client_type @ ''/count?'' @ ''filter=PARENTID::'' @ share_id)
             (vstore_params vstore_id) (Some ''GET'') of
        (Inl e, s1) \<Rightarrow> (Inl e, s1)
      | (Inr result, s1) \<Rightarrow>
          (case assert_rest_result result ''Get access count by share error!'' of
             Inl e \<Rightarrow> (Inl e, s1)
           | Inr u \<Rightarrow>
               (case assert_data_in_result result ''Get access count by share error!'' of
                  Inl e \<Rightarrow> (Inl e, s1)
                | Inr u' \<Rightarrow> (count_of result, s1))))"

text \<open>\<^verbatim>\<open>_get_access_from_share_range\<close>\<close>

definition access_range_url :: "string \<Rightarrow> int \<Rightarrow> string \<Rightarrow> string" where
  "access_range_url share_id range_begin share_client_type =
     ''/'' @ share_client_type @ ''?filter=PARENTID::'' @ share_id @ ''&range=[''
       @ str_int range_begin @ ''-'' @ str_int (range_begin + 100) @ '']''"

definition get_access_from_share_range :: "network \<Rightarrow> constants \<Rightarrow> login_info \<Rightarrow> helper \<Rightarrow> string
    \<Rightarrow> int \<Rightarrow> string \<Rightarrow> string option \<Rightarrow> (exn + json) \<times> helper" where
  "get_access_from_share_range net K li s share_id range_begin share_client_type vstore_id =
     (case call net K li s (access_range_url share_id range_begin share_client_type)
             (vstore_params vstore_id) (Some ''GET'') of
        (Inl e, s1) \<Rightarrow> (Inl e, s1)
      | (Inr result, s1) \<Rightarrow>
          (case assert_rest_result result ''Get access id by share error!'' of
             Inl e \<Rightarrow> (Inl e, s1)
           | Inr u \<Rightarrow> (dict_get result ''data'' (JList []), s1)))"

text \<open>
  The \<^verbatim>\<open>for\<close> loop of \<^verbatim>\<open>_get_access_from_share\<close> over one page: every item named
  \<open>access_to\<close> or \<open>@access_to\<close> overwrites the id found so far.
\<close>

fun scan_access :: "string \<Rightarrow> json list \<Rightarrow> json \<Rightarrow> exn + json" where
  "scan_access access_to [] access_id = Inr access_id"
| "scan_access access_to (item # items) access_id =
     (case getitem item ''NAME'' of
        Inl e \<Rightarrow> Inl e
      | Inr name \<Rightarrow>
          if eq_str name access_to \<or> eq_str name (''@'' @ access_to) then
            (case getitem item ''ID'' of
               Inl e \<Rightarrow> Inl e
             | Inr i \<Rightarrow> scan_access access_to items i)
          else scan_access access_to items access_id)"

text \<open>The \<^verbatim>\<open>while count > 0\<close> loop of \<^verbatim>\<open>_get_access_from_share\<close>.\<close>

function access_loop :: "network \<Rightarrow> constants \<Rightarrow> login_info \<Rightarrow> helper \<Rightarrow> string \<Rightarrow> string \<Rightarrow> string
    \<Rightarrow> string option \<Rightarrow> int \<Rightarrow> int \<Rightarrow> json \<Rightarrow> (exn + json) \<times> helper" where
  "access_loop net K li s share_id access_to share_client_type vstore_id count range_begin access_id =
     (if count > 0 then
        if truthy access_id then (Inr access_id, s)
        else
          (case get_access_from_share_range net K li s share_id range_begin share_client_type
                  vstore_id of
             (Inl e, s1) \<Rightarrow> (Inl e, s1)
           | (Inr access_range, s1) \<Rightarrow>
               (case py_iter access_range of
                  Inl e \<Rightarrow> (Inl e, s1)
                | Inr items \<Rightarrow>
                    (case scan_access access_to items access_id of
                       Inl e \<Rightarrow> (Inl e, s1)
                     | Inr access_id' \<Rightarrow>
                         access_loop net K li s1 share_id access_to share_client_type vstore_id
                           (count - 100) (range_begin + 100) access_id')))
      else (Inr access_id, s))"
  by pat_completeness auto
termination
  by (relation "measure (\<lambda>(net, K, li, s, share_id, access_to, share_client_type, vstore_id,
                           count, range_begin, access_id). nat count)") auto

text \<open>\<^verbatim>\<open>_get_access_from_share\<close>\<close>

definition get_access_from_share :: "network \<Rightarrow> constants \<Rightarrow> login_info \<Rightarrow> helper \<Rightarrow> string
    \<Rightarrow> string \<Rightarrow> string \<Rightarrow> string option \<Rightarrow> (exn + json) \<times> helper" where
  "get_access_from_share net K li s share_id access_to share_proto vstore_id =
     (case get_share_client_type share_proto of
        Inl e \<Rightarrow> (Inl e, s)
      | Inr share_client_type \<Rightarrow>
          (case get_access_count net K li s share_id share_client_type vstore_id of
             (Inl e, s1) \<Rightarrow> (Inl e, s1)
           | (Inr count, s1) \<Rightarrow>
               access_loop net K li s1 share_id access_to share_client_type vstore_id
                 count 0 JNull))"

subsection \<open>Finding a share by its name\<close>

text \<open>\<^verbatim>\<open>_get_share_path\<close>: hyphens become underscores, between two slashes.\<close>

definition get_share_path :: "string \<Rightarrow> string" where
  "get_share_path share_name =
     ''/'' @ map (\<lambda>c. if c = CHR ''-'' then CHR ''_'' else c) share_name @ ''/''"

text \<open>\<^verbatim>\<open>_get_share_count\<close>\<close>

definition get_share_count :: "network \<Rightarrow> constants \<Rightarrow> login_info \<Rightarrow> helper \<Rightarrow> string
    \<Rightarrow> (exn + int) \<times> helper" where
  "get_share_count net K li s share_url_type =
     (case call net K li s (''/'' @ share_url_type @ ''/count'') None (Some ''GET'') of
        (Inl e, s1) \<Rightarrow> (Inl e, s1)
      | (Inr result, s1) \<Rightarrow>
          (case assert_rest_result result ''Get share count error!'' of
             Inl e \<Rightarrow> (Inl e, s1)
           | Inr u \<Rightarrow> (count_of result, s1)))"

text \<open>
  The \<^verbatim>\<open>for\<close> loop of \<^verbatim>\<open>_get_share_by_name_range\<close>: the first item with the share's
  path gives the dictionary of its two ids, and no item gives the empty dictionary.
\<close>

fun find_share :: "string \<Rightarrow> json list \<Rightarrow> exn + (string \<times> json) list" where
  "find_share share_path [] = Inr []"
| "find_share share_path (item # items) =
     (case getitem item ''SHAREPATH'' of
        Inl e \<Rightarrow> Inl e
      | Inr p \<Rightarrow>
          if eq_str p share_path then
            (case getitem item ''ID'' of
               Inl e \<Rightarrow> Inl e
             | Inr i \<Rightarrow>
                 (case getitem item ''FSID'' of
                    Inl e \<Rightarrow> Inl e
                  | Inr f \<Rightarrow> Inr [(''ID'', i), (''FSID'', f)]))
          else find_share share_path items)"

definition share_range_url :: "int \<Rightarrow> string \<Rightarrow> string" where
  "share_range_url range_begin share_url_type =
     ''/'' @ share_url_type @ ''?range=['' @ str_int range_begin @ ''-''
       @ str_int (range_begin + 100) @ '']''"

text \<open>\<^verbatim>\<open>_get_share_by_name_range\<close>\<close>

definition get_share_by_name_range :: "network \<Rightarrow> constants \<Rightarrow> login_info \<Rightarrow> helper \<Rightarrow> string
    \<Rightarrow> int \<Rightarrow> string \<Rightarrow> string option \<Rightarrow> (exn + (string \<times> json) list) \<times> helper" where
  "get_share_by_name_range net K li s share_name range_begin share_url_type vstore_id =
     (case call net K li s (share_range_url range_begin share_url_type)
             (vstore_params vstore_id) (Some ''GET'') of
        (Inl e, s1) \<Rightarrow> (Inl e, s1)
      | (Inr result, s1) \<Rightarrow>
          (case assert_rest_result result ''Get share by name error!'' of
             Inl e \<Rightarrow> (Inl e, s1)
           | Inr u \<Rightarrow>
               (case dict_get result ''data'' (JList []) of
                  Inl e \<Rightarrow> (Inl e, s1)
                | Inr d \<Rightarrow>
                    (case py_iter d of
                       Inl e \<Rightarrow> (Inl e, s1)
                     | Inr items \<Rightarrow> (find_share (get_share_path share_name) items, s1)))))"

text \<open>The \<^verbatim>\<open>while True\<close> loop of \<^verbatim>\<open>_get_share_by_name\<close>.\<close>

function share_loop :: "network \<Rightarrow> constants \<Rightarrow> login_info \<Rightarrow> helper \<Rightarrow> string \<Rightarrow> string
    \<Rightarrow> string option \<Rightarrow> int \<Rightarrow> int \<Rightarrow> (string \<times> json) list
    \<Rightarrow> (exn + (string \<times> json) list) \<times> helper" where
  "share_loop net K li s share_name share_url_type vstore_id count range_begin share =
     (if count < 0 \<or> share \<noteq> [] then (Inr share, s)
      else
        (case get_share_by_name_range net K li s share_name range_begin share_url_type
                vstore_id of
           (Inl e, s1) \<Rightarrow> (Inl e, s1)
         | (Inr share', s1) \<Rightarrow>
             share_loop net K li s1 share_name share_url_type vstore_id
               (count - 100) (range_begin + 100) share'))"
  by pat_completeness auto
termination
  by (relation "measure (\<lambda>(net, K, li, s, share_name, share_url_type, vstore_id,
                           count, range_begin, share). nat (count + 1))") auto

text \<open>\<^verbatim>\<open>_get_share_by_name\<close>\<close>

definition get_share_by_name :: "network \<Rightarrow> constants \<Rightarrow> login_info \<Rightarrow> helper \<Rightarrow> string
    \<Rightarrow> string \<Rightarrow> string option \<Rightarrow> (exn + (string \<times> json) list) \<times> helper" where
  "get_share_by_name net K li s share_name share_url_type vstore_id =
     (case get_share_count net K li s share_url_type of
        (Inl e, s1) \<Rightarrow> (Inl e, s1)
      | (Inr count, s1) \<Rightarrow>
          share_loop net K li s1 share_name share_url_type vstore_id count 0 [])"

subsection \<open>QoS policies\<close>

definition ascii_upper :: "char \<Rightarrow> char" where
  "ascii_upper c = (let n = (of_char c :: nat) in if 97 \<le> n \<and> n \<le> 122 then char_of (n - 32) else c)"

text \<open>\<^verbatim>\<open>get_qos\<close>\<close>

definition get_qos :: "network \<Rightarrow> constants \<Rightarrow> login_info \<Rightarrow> helper \<Rightarrow> (exn + json) \<times> helper" where
  "get_qos net K li s =
     (case call net K li s ''/ioclass'' None (Some ''GET'') of
        (Inl e, s1) \<Rightarrow> (Inl e, s1)
      | (Inr result, s1) \<Rightarrow>
          (case assert_rest_result result ''Get QoS information error.'' of
             Inl e \<Rightarrow> (Inl e, s1)
           | Inr u \<Rightarrow> (Inr result, s1)))"

text \<open>
  \<^verbatim>\<open>temp_qos.get(k) != item.get(k)\<close>, negated. The wanted QoS is a dictionary from
  option names to strings, so its side is a string or \<^verbatim>\<open>None\<close>; the item's side is
  \<^verbatim>\<open>None\<close> for a missing key and for a JSON null.
\<close>

definition same_option :: "string option \<Rightarrow> json option \<Rightarrow> bool" where
  "same_option wanted found =
     (case wanted of
        None \<Rightarrow> (found = None \<or> found = Some JNull)
      | Some t \<Rightarrow> (case found of None \<Rightarrow> False | Some v \<Rightarrow> eq_str v t))"

text \<open>
  The inner \<^verbatim>\<open>for key in constants.OPTS_QOS_VALUE\<close> with its \<^verbatim>\<open>else\<close>: \<open>True\<close> when
  no key made the loop \<^verbatim>\<open>break\<close>.
\<close>

fun options_match :: "(string \<times> string) list \<Rightarrow> json \<Rightarrow> string list \<Rightarrow> exn + bool" where
  "options_match temp_qos item [] = Inr True"
| "options_match temp_qos item (key # keys) =
     (case item of
        JObj kvs \<Rightarrow>
          if \<not> same_option (map_of temp_qos (map ascii_upper key)) (map_of kvs (map ascii_upper key))
          then Inr False
          else options_match temp_qos item keys
      | _ \<Rightarrow> Inl AttributeError)"

text \<open>
  The test under the \<^verbatim>\<open>else\<close>, for an item whose options match: the number of
  comma-separated pieces of \<^verbatim>\<open>FSLIST\<close> is computed first, then the four conditions
  are evaluated left to right as Python's \<^verbatim>\<open>and\<close> does.
\<close>

definition qos_usable :: "constants \<Rightarrow> json \<Rightarrow> exn + bool" where
  "qos_usable K item =
     (case getitem item ''FSLIST'' of
        Inl e \<Rightarrow> Inl e
      | Inr (JStr fslist) \<Rightarrow>
          let fs_num = int (length (split_on CHR '','' fslist)) in
          (case getitem item ''RUNNINGSTATUS'' of
             Inl e \<Rightarrow> Inl e
           | Inr status \<Rightarrow>
               if \<not> eq_str status (STATUS_QOS_ACTIVE K) then Inr False
               else if \<not> fs_num < MAX_FS_NUM_IN_QOS K then Inr False
               else (case getitem item ''NAME'' of
                       Inl e \<Rightarrow> Inl e
                     | Inr (JStr name) \<Rightarrow>
                         if take (length (QOS_NAME_PREFIX K)) name \<noteq> QOS_NAME_PREFIX K then Inr False
                         else (case getitem item ''LUNLIST'' of
                                 Inl e \<Rightarrow> Inl e
                               | Inr luns \<Rightarrow> Inr (eq_str luns (''['' @ [CHR 0x22, CHR 0x22] @ '']'')))
                     | Inr other \<Rightarrow> Inl AttributeError))
      | Inr other \<Rightarrow> Inl AttributeError)"

text \<open>
  The outer \<^verbatim>\<open>for item in result['data']\<close>: the first usable item with matching
  options gives \<^verbatim>\<open>(qos_id, fs_list)\<close>; without one the pair stays \<^verbatim>\<open>(None, [])\<close>.
\<close>

fun qos_loop :: "constants \<Rightarrow> (string \<times> string) list \<Rightarrow> json list \<Rightarrow> exn + json \<times> json" where
  "qos_loop K temp_qos [] = Inr (JNull, JList [])"
| "qos_loop K temp_qos (item # items) =
     (case options_match temp_qos item (OPTS_QOS_VALUE K) of
        Inl e \<Rightarrow> Inl e
      | Inr False \<Rightarrow> qos_loop K temp_qos items
      | Inr True \<Rightarrow>
          (case qos_usable K item of
             Inl e \<Rightarrow> Inl e
           | Inr False \<Rightarrow> qos_loop K temp_qos items
           | Inr True \<Rightarrow>
               (case getitem item ''ID'' of
                  Inl e \<Rightarrow> Inl e
                | Inr qos_id \<Rightarrow>
                    (case getitem item ''FSLIST'' of
                       Inl e \<Rightarrow> Inl e
                     | Inr fs_list \<Rightarrow> Inr (qos_id, fs_list)))))"

text \<open>\<^verbatim>\<open>find_available_qos\<close>\<close>

definition find_available_qos :: "network \<Rightarrow> constants \<Rightarrow> login_info \<Rightarrow> helper
    \<Rightarrow> (string \<times> string) list \<Rightarrow> (exn + json \<times> json) \<times> helper" where
  "find_available_qos net K li s qos =
     (case get_qos net K li s of
        (Inl e, s1) \<Rightarrow> (Inl e, s1)
      | (Inr result, s1) \<Rightarrow>
          (case contains result ''data'' of
             Inl e \<Rightarrow> (Inl e, s1)
           | Inr False \<Rightarrow> (Inr (JNull, JList []), s1)
           | Inr True \<Rightarrow>
               let temp_qos = (if ''LATENCY'' \<notin> set (map fst qos)
                               then dict_set qos ''LATENCY'' ''0'' else qos)
               in (case getitem result ''data'' of
                     Inl e \<Rightarrow> (Inl e, s1)
                   | Inr d \<Rightarrow>
                       (case py_iter d of
                          Inl e \<Rightarrow> (Inl e, s1)
                        | Inr items \<Rightarrow> (qos_loop K temp_qos items, s1)))))"

text \<open>
  \<^verbatim>\<open>t[1:-1]\<close>: the string without its first and its last character (empty when it has
  fewer than two).
\<close>

definition strip_ends :: "string \<Rightarrow> string" where
  "strip_ends t = butlast (tl t)"

text \<open>
  The list \<^verbatim>\<open>add_share_to_qos\<close> builds from the policy's \<^verbatim>\<open>FSLIST\<close> string and the
  filesystem to add.
\<close>

definition new_fs_list :: "string \<Rightarrow> string \<Rightarrow> string list" where
  "new_fs_list fs_id fs_list =
     filter (\<lambda>tmp_fs_id. tmp_fs_id \<noteq> [] \<and> tmp_fs_id \<noteq> fs_id)
       (map strip_ends (split_on CHR '','' (strip_ends fs_list))) @ [fs_id]"

text \<open>\<^verbatim>\<open>add_share_to_qos\<close>\<close>

definition add_share_to_qos :: "network \<Rightarrow> constants \<Rightarrow> login_info \<Rightarrow> helper \<Rightarrow> string \<Rightarrow> string
    \<Rightarrow> string \<Rightarrow> (exn + unit) \<times> helper" where
  "add_share_to_qos net K li s qos_id fs_id fs_list =
     (case call net K li s (''/ioclass/'' @ qos_id)
             (Some (JObj [(''FSLIST'', JList (map JStr (new_fs_list fs_id fs_list))),
                          (''TYPE'', JInt 230),
                          (''ID'', JStr qos_id)]))
             (Some ''PUT'') of
        (Inl e, s1) \<Rightarrow> (Inl e, s1)
      | (Inr result, s1) \<Rightarrow> (assert_rest_result result ''Associate filesystem to Qos error.'', s1))"

section \<open>Terms of the statements\<close>

text \<open>The headers of a session that \<^verbatim>\<open>init_http_head\<close> has just made.\<close>

definition fresh_headers :: "(string \<times> json) list" where
  "fresh_headers = [(''Connection'', JStr ''keep-alive''), (''Content-Type'', JStr ''application/json'')]"

text \<open>
  The request \<^verbatim>\<open>login\<close> sends for one candidate URL: a POST of the credentials to
  the candidate's \<^verbatim>\<open>xx/sessions\<close>, with no base URL before it and with fresh headers.
\<close>

definition login_request :: "constants \<Rightarrow> login_info \<Rightarrow> string \<Rightarrow> request" where
  "login_request K li item_url =
     \<lparr>req_method = ''post'',
      req_url = strip_newlines item_url @ ''xx/sessions'',
      req_headers = fresh_headers,
      req_data = Some (JObj [(''username'', JStr (UserName li)),
                             (''password'', JStr (UserPassword li)),
                             (''scope'', JStr ''0'')]),
      req_timeout = LOGIN_SOCKET_TIMEOUT K\<rparr>"

text \<open>
  The result \<^verbatim>\<open>do_call\<close> gives \<^verbatim>\<open>login\<close> for candidate \<open>i\<close> of \<open>urls\<close>, when the
  requests \<open>h\<close> were sent before \<^verbatim>\<open>login\<close> and the candidates before \<open>i\<close> have been
  tried in order.
\<close>

definition login_reply :: "network \<Rightarrow> constants \<Rightarrow> login_info \<Rightarrow> request list \<Rightarrow> string list
    \<Rightarrow> nat \<Rightarrow> exn + json" where
  "login_reply net K li h urls i =
     result_of K (net (h @ map (login_request K li) (take i urls)) (login_request K li (urls ! i)))"

text \<open>
  Candidate \<open>i\<close> is rejected: its exchange gives a result and the test of \<^verbatim>\<open>login\<close>
  sends the loop on to the next candidate.
\<close>

definition rejected :: "network \<Rightarrow> constants \<Rightarrow> login_info \<Rightarrow> request list \<Rightarrow> string list
    \<Rightarrow> nat \<Rightarrow> bool" where
  "rejected net K li h urls i =
     (case login_reply net K li h urls i of
        Inl e \<Rightarrow> False
      | Inr r \<Rightarrow> login_failed r = Inr True)"

text \<open>
  The three ways in which a response makes \<^verbatim>\<open>login\<close> go on to the next candidate,
  said on the response alone: its error code is not 0; or it is 0 and the response has
  no \<^verbatim>\<open>data\<close>; or it is 0, there is \<^verbatim>\<open>data\<close>, and the device id in it is \<^verbatim>\<open>None\<close>.
\<close>

definition passed_over :: "json \<Rightarrow> bool" where
  "passed_over r =
     (case error_code r of
        Inl e \<Rightarrow> False
      | Inr c \<Rightarrow>
          \<not> eq_int c 0 \<or> contains r ''data'' = Inr False \<or>
          (case getitem r ''data'' of
             Inl e \<Rightarrow> False
           | Inr d \<Rightarrow> getitem d ''deviceid'' = Inr JNull))"

text \<open>
  The ways in which the answer of a candidate cannot be put to the test at all, with the
  Python exception that results: the body is not JSON (the exchange gives no result);
  the result has no error code to read; or the code is 0 and there is \<^verbatim>\<open>data\<close>, but
  the device id cannot be read from it.
\<close>

definition check_raises :: "exn + json \<Rightarrow> exn \<Rightarrow> bool" where
  "check_raises reply e =
     (case reply of
        Inl e' \<Rightarrow> e' = e
      | Inr r \<Rightarrow>
          (case error_code r of
             Inl e' \<Rightarrow> e' = e
           | Inr c \<Rightarrow>
               eq_int c 0 \<and>
               (case getitem r ''data'' of
                  Inl e' \<Rightarrow> False
                | Inr d \<Rightarrow> getitem d ''deviceid'' = Inl e)))"

text \<open>
  The request \<^verbatim>\<open>logout\<close> sends when the base URL is \<open>base\<close> and the session holds
  the headers \<open>hdrs\<close>.
\<close>

definition logout_request :: "constants \<Rightarrow> string \<Rightarrow> (string \<times> json) list \<Rightarrow> request" where
  "logout_request K base hdrs =
     \<lparr>req_method = ''delete'',
      req_url = base @ ''/sessions'',
      req_headers = hdrs,
      req_data = None,
      req_timeout = SOCKET_TIMEOUT K\<rparr>"

text \<open>
  The body \<^verbatim>\<open>send_rest\<close> posts to \<^verbatim>\<open>/CIFS_SHARE_AUTH_CLIENT\<close> for a name and a domain
  type.
\<close>

definition cifs_access_body :: "string \<Rightarrow> string \<Rightarrow> string \<Rightarrow> string \<Rightarrow> string option \<Rightarrow> json" where
  "cifs_access_body share_id access_level name domain_type vstore =
     JObj (if truthy_str vstore
           then dict_set [(''NAME'', JStr name), (''PARENTID'', JStr share_id),
                          (''PERMISSION'', JStr access_level), (''DOMAINTYPE'', JStr domain_type)]
                  ''vstoreId'' (JStr (the vstore))
           else [(''NAME'', JStr name), (''PARENTID'', JStr share_id),
                 (''PERMISSION'', JStr access_level), (''DOMAINTYPE'', JStr domain_type)])"

text \<open>The domain type \<^verbatim>\<open>_allow_cifs_access_rest\<close> uses for a name: AD with a backslash, local without.\<close>

definition domain_type_of :: "string \<Rightarrow> string" where
  "domain_type_of access_to = (if CHR 0x5C \<in> set access_to then ''0'' else ''2'')"

text \<open>
  The string encoding of a list of filesystem ids as the array reports it in
  \<^verbatim>\<open>FSLIST\<close>: the ids in double quotes, separated by commas, in square brackets; the
  empty list is reported as one pair of quotes in brackets.
\<close>

definition quoted :: "string \<Rightarrow> string" where
  "quoted i = CHR 0x22 # i @ [CHR 0x22]"

fun join_with :: "char \<Rightarrow> string list \<Rightarrow> string" where
  "join_with c [] = []"
| "join_with c [w] = w"
| "join_with c (w # v # ws) = w @ c # join_with c (v # ws)"

definition encode_fs_list :: "string list \<Rightarrow> string" where
  "encode_fs_list ids =
     ''['' @ (if ids = [] then quoted [] else join_with CHR '','' (map quoted ids)) @ '']''"

text \<open>
  The network answers a request with a result whatever was sent before it.
\<close>

definition answers :: "network \<Rightarrow> constants \<Rightarrow> request \<Rightarrow> json \<Rightarrow> bool" where
  "answers net K q j = (\<forall>h. result_of K (net h q) = Inr j)"

text \<open>A result with code 0 and the given \<^verbatim>\<open>data\<close>.\<close>

definition success_data :: "json \<Rightarrow> json \<Rightarrow> bool" where
  "success_data j d =
     (case error_code j of
        Inl e \<Rightarrow> False
      | Inr c \<Rightarrow> eq_int c 0 \<and> getitem j ''data'' = Inr d)"

text \<open>A result with code 0 whose \<^verbatim>\<open>data\<close> holds the count \<open>n\<close>.\<close>

definition success_count :: "json \<Rightarrow> int \<Rightarrow> bool" where
  "success_count j n =
     (case error_code j of
        Inl e \<Rightarrow> False
      | Inr c \<Rightarrow> eq_int c 0 \<and> count_of j = Inr n)"

text \<open>
  The GET requests of the two scans, for a helper with base URL and headers as in \<open>s\<close>
  and \<open>hdrs\<close>: the count and the page that begins at \<open>b\<close>, for the access rules of
  a share and for the shares of a type.
\<close>

definition access_count_request :: "constants \<Rightarrow> helper \<Rightarrow> (string \<times> json) list \<Rightarrow> string
    \<Rightarrow> string \<Rightarrow> string option \<Rightarrow> request" where
  "access_count_request K s hdrs share_id share_client_type vstore_id =
     make_request s hdrs (''/'' @ share_client_type @ ''/count?filter=PARENTID::'' @ share_id)
       (vstore_params vstore_id) ''GET'' (SOCKET_TIMEOUT K)"

definition access_page_request :: "constants \<Rightarrow> helper \<Rightarrow> (string \<times> json) list \<Rightarrow> string
    \<Rightarrow> string \<Rightarrow> string option \<Rightarrow> int \<Rightarrow> request" where
  "access_page_request K s hdrs share_id share_client_type vstore_id b =
     make_request s hdrs (access_range_url share_id b share_client_type)
       (vstore_params vstore_id) ''GET'' (SOCKET_TIMEOUT K)"

definition share_count_request :: "constants \<Rightarrow> helper \<Rightarrow> (string \<times> json) list \<Rightarrow> string
    \<Rightarrow> request" where
  "share_count_request K s hdrs share_url_type =
     make_request s hdrs (''/'' @ share_url_type @ ''/count'') None ''GET'' (SOCKET_TIMEOUT K)"

definition share_page_request :: "constants \<Rightarrow> helper \<Rightarrow> (string \<times> json) list \<Rightarrow> string
    \<Rightarrow> string option \<Rightarrow> int \<Rightarrow> request" where
  "share_page_request K s hdrs share_url_type vstore_id b =
     make_request s hdrs (share_range_url b share_url_type)
       (vstore_params vstore_id) ''GET'' (SOCKET_TIMEOUT K)"

text \<open>No item of a page is named \<open>access_to\<close> or \<open>@access_to\<close>; no item has the path.\<close>

definition no_access_named :: "string \<Rightarrow> json list \<Rightarrow> bool" where
  "no_access_named access_to items =
     list_all (\<lambda>item. case getitem item ''NAME'' of
                        Inl e \<Rightarrow> False
                      | Inr name \<Rightarrow> \<not> eq_str name access_to \<and> \<not> eq_str name (''@'' @ access_to))
       items"

definition no_share_at :: "string \<Rightarrow> json list \<Rightarrow> bool" where
  "no_share_at share_path items =
     list_all (\<lambda>item. case getitem item ''SHAREPATH'' of
                        Inl e \<Rightarrow> False
                      | Inr p \<Rightarrow> \<not> eq_str p share_path)
       items"

text \<open>The beginnings of the first \<open>k\<close> pages: 0, 100, 200 and so on.\<close>

definition page_begins :: "nat \<Rightarrow> int list" where
  "page_begins k = map (\<lambda>i. 100 * int i) [0..<k]"

section \<open>Sample data\<close>

text \<open>
  A sample assignment of the constants (distinct non-zero codes for the sentinels), a
  sample configuration with three candidate URLs, and a helper that holds a session.
\<close>

definition K0 :: constants where
  "K0 = \<lparr>SOCKET_TIMEOUT = 52, LOGIN_SOCKET_TIMEOUT = 4,
          ERROR_CONNECT_TO_SERVER = - 403, ERROR_UNAUTHORIZED_TO_SERVER = - 401,
          ERROR_USER_OR_GROUP_NOT_EXIST = 1077939723,
          ERROR_REPLICATION_PAIR_NOT_EXIST = 1077937923,
          ERROR_HYPERMETRO_NOT_EXIST = 1077674242,
          MSG_SNAPSHOT_NOT_FOUND = 1073754118,
          PWD_EXPIRED_OR_INITIAL = [3, 4],
          STATUS_QOS_ACTIVE = ''2'', MAX_FS_NUM_IN_QOS = 64,
          QOS_NAME_PREFIX = ''OpenStack_'',
          OPTS_QOS_VALUE = [''maxiops'', ''miniops'', ''minbandwidth'', ''maxbandwidth'',
                            ''latency'', ''iotype'']\<rparr>"

definition li0 :: login_info where
  "li0 = \<lparr>RestURL = ''http://a/;http://b/;http://c/'', UserName = ''admin'',
           UserPassword = ''secret''\<rparr>"

definition s0 :: helper where
  "s0 = \<lparr>url = Some ''http://a/21'',
          session = Some (fresh_headers @ [(''iBaseToken'', JStr ''t0'')]),
          wire = []\<rparr>"

text \<open>A response with status 200 and the given body, and the envelope of a success.\<close>

definition http_ok :: "json \<Rightarrow> outcome" where
  "http_ok j = Returned \<lparr>status_code = 200, error_text = [], body = Some j\<rparr>"

definition envelope :: "int \<Rightarrow> (string \<times> json) list \<Rightarrow> json" where
  "envelope c extra = JObj ((''error'', JObj [(''code'', JInt c), (''description'', JStr ''0'')]) # extra)"

text \<open>Three networks: one that is down, one that answers 503, one that answers success.\<close>

definition net_down :: network where
  "net_down h r = Failed"

definition net_503 :: network where
  "net_503 h r = Returned \<lparr>status_code = 503, error_text = ''503 Server Error'', body = None\<rparr>"

definition net_ok :: network where
  "net_ok h r = http_ok (envelope 0 [(''data'', JObj [(''ID'', JStr ''7'')])])"

text \<open>A helper that has not logged in yet.\<close>

definition s_new :: helper where
  "s_new = \<lparr>url = None, session = None, wire = []\<rparr>"

text \<open>
  The body of an accepted login: device id \<^verbatim>\<open>22\<close>, token \<^verbatim>\<open>t1\<close> and the given account
  state.
\<close>

definition login_body :: "int \<Rightarrow> json" where
  "login_body st = envelope 0 [(''data'', JObj [(''deviceid'', JStr ''22''),
                                               (''iBaseToken'', JStr ''t1''),
                                               (''accountstate'', JInt st)])]"

text \<open>
  A network whose first candidate answers the login with code 0 and no \<^verbatim>\<open>data\<close>, whose
  second answers with code 0 and a device id \<^verbatim>\<open>null\<close>, and whose third accepts it.
\<close>

definition net_c :: network where
  "net_c h r =
     (if req_url r = ''http://a/xx/sessions'' then http_ok (envelope 0 [])
      else if req_url r = ''http://b/xx/sessions''
      then http_ok (envelope 0 [(''data'', JObj [(''deviceid'', JNull)])])
      else http_ok (login_body 1))"

text \<open>
  A network whose second candidate answers with status 200 and a body that is not JSON,
  and that is down for every other request.
\<close>

definition net_html :: network where
  "net_html h r =
     (if req_url r = ''http://b/xx/sessions''
      then Returned \<lparr>status_code = 200, error_text = [], body = None\<rparr>
      else Failed)"

text \<open>
  A network whose first candidate answers the login with code 0 and a \<^verbatim>\<open>data\<close> that
  holds nothing, and whose other candidates accept it.
\<close>

definition net_malformed :: network where
  "net_malformed h r =
     (if req_url r = ''http://a/xx/sessions'' then http_ok (envelope 0 [(''data'', JObj [])])
      else http_ok (login_body 1))"

text \<open>
  A network whose first candidate accepts the login with account state 3, and that
  answers everything else (the logout with it) with code 0.
\<close>

definition net_expired :: network where
  "net_expired h r =
     (if req_url r = ''http://a/xx/sessions'' then http_ok (login_body 3)
      else http_ok (envelope 0 []))"

text \<open>
  A network that cannot be reached by the first request it ever sees, accepts the login
  at the first candidate, and answers every other request with a success.
\<close>

definition net_reconnect :: network where
  "net_reconnect h r =
     (if h = [] then Failed
      else if req_url r = ''http://a/xx/sessions'' then http_ok (login_body 1)
      else http_ok (envelope 0 [(''data'', JObj [(''ID'', JStr ''7'')])]))"

text \<open>
  A network that accepts the login at the first candidate and answers every other
  request with the unauthorized code.
\<close>

definition net_unauthorized :: network where
  "net_unauthorized h r =
     (if req_url r = ''http://a/xx/sessions'' then http_ok (login_body 1)
      else http_ok (envelope (- 401) []))"

text \<open>
  A network that answers the first request it ever sees with the unauthorized code and
  is down afterwards.
\<close>

definition net_lost :: network where
  "net_lost h r = (if h = [] then http_ok (envelope (- 401) []) else Failed)"

text \<open>A network that answers every request with the envelope of the given code.\<close>

definition net_code :: "int \<Rightarrow> network" where
  "net_code c h r = http_ok (envelope c [])"

text \<open>
  A network that answers the first request it ever sees with the envelope of one code
  and every later request with the envelope of another.
\<close>

definition net_then :: "int \<Rightarrow> int \<Rightarrow> network" where
  "net_then c1 c2 h r = (if h = [] then http_ok (envelope c1 []) else http_ok (envelope c2 []))"

text \<open>
  A network that answers every request with a success carrying two QoS policies: the
  first is full for the wanted options (it has LUNs), the second is usable.
\<close>

definition qos_item :: "string \<Rightarrow> string \<Rightarrow> string \<Rightarrow> string \<Rightarrow> json" where
  "qos_item qid name luns fslist =
     JObj [(''ID'', JStr qid), (''NAME'', JStr name), (''RUNNINGSTATUS'', JStr ''2''),
           (''LUNLIST'', JStr luns), (''FSLIST'', JStr fslist),
           (''MAXIOPS'', JStr ''100''), (''LATENCY'', JStr ''0'')]"

definition net_qos :: network where
  "net_qos h r =
     http_ok (envelope 0
       [(''data'', JList [qos_item ''1'' ''OpenStack_a'' (encode_fs_list [''5'']) (encode_fs_list []),
                         qos_item ''2'' ''OpenStack_b'' (encode_fs_list []) (encode_fs_list [''10'', ''11''])])])"

text \<open>
  Bodies of a count and of a page, and two networks for the scans of the access rules
  of share 7 and of the NFS shares, seen from the helper \<open>s0\<close>: one that reports a
  count and holds only empty pages, one that reports 250 access rules named
  \<^verbatim>\<open>host0\<close> to \<^verbatim>\<open>host249\<close> and serves them in windows of 100.
\<close>

definition count_body :: "string \<Rightarrow> json" where
  "count_body n = envelope 0 [(''data'', JObj [(''COUNT'', JStr n)])]"

definition page_body :: "json list \<Rightarrow> json" where
  "page_body items = envelope 0 [(''data'', JList items)]"

definition net_empty_pages :: "string \<Rightarrow> network" where
  "net_empty_pages n h r =
     (if req_url r = ''http://a/21/NFS_SHARE_AUTH_CLIENT/count?filter=PARENTID::7'' \<or>
         req_url r = ''http://a/21/NFSHARE/count''
      then http_ok (count_body n)
      else http_ok (page_body []))"







section \<open>Basic facts\<close>

lemma error_code_envelope: "error_code (error_envelope c d) = Inr c"
  by (simp add: error_code_def error_envelope_def)

lemma getitem_contains: "getitem j k = Inr d \<Longrightarrow> contains j k = Inr True"
  by (cases j) (auto split: option.splits dest: map_of_SomeD intro: rev_image_eqI)

lemma do_call_sent:
  assumes "session s = Some hdrs"
    and "effective_method method \<in> {''POST'', ''PUT'', ''GET'', ''DELETE''}"
  shows "do_call net K s path data method t =
           (result_of K (net (wire s) (make_request s hdrs path data (effective_method method) t)),
            s\<lparr>wire := wire s @ [make_request s hdrs path data (effective_method method) t]\<rparr>)"
  using assms by (simp add: do_call_def Let_def)

lemma ascii_lower_letters [simp]:
  "ascii_lower CHR ''P'' = CHR ''p''" "ascii_lower CHR ''O'' = CHR ''o''"
  "ascii_lower CHR ''S'' = CHR ''s''" "ascii_lower CHR ''T'' = CHR ''t''"
  "ascii_lower CHR ''U'' = CHR ''u''" "ascii_lower CHR ''G'' = CHR ''g''"
  "ascii_lower CHR ''E'' = CHR ''e''" "ascii_lower CHR ''D'' = CHR ''d''"
  "ascii_lower CHR ''L'' = CHR ''l''"
  by code_simp+

section \<open>The result contract\<close>

text \<open>
  C9. For a result whose error code can be read, \<^verbatim>\<open>_assert_rest_result\<close> raises
  \<open>InvalidShare\<close> exactly when the code is not 0, and the reason holds the caller's
  message and the whole result (its description with it); otherwise it returns. For a
  dictionary, \<^verbatim>\<open>_assert_data_in_result\<close> raises \<open>InvalidShare\<close> exactly when the key
  \<^verbatim>\<open>"data"\<close> is missing; otherwise it returns. Neither touches the helper's state.
\<close>

theorem assert_helpers_exact:
  "(error_code result = Inr c \<longrightarrow>
      assert_rest_result result err_str =
        (if eq_int c 0 then Inr ()
         else Inl (InvalidShare [Txt err_str, Txt [CHR 0x0A], Txt ''result: '', Val result, Txt ''.'']))) \<and>
   assert_data_in_result (JObj kvs) msg =
     (if ''data'' \<in> fst ` set kvs then Inr ()
      else Inl (InvalidShare [Txt msg, Txt ('' '' @ [CHR 0x22] @ ''data'' @ [CHR 0x22] @ '' was not in result.'')]))"
  by (simp add: assert_rest_result_def assert_data_in_result_def)

theorem assert_helpers_exact_witness:
  "error_code (error_envelope (JInt 1077949061) ''busy'') = Inr (JInt 1077949061) \<and>
   assert_rest_result (error_envelope (JInt 1077949061) ''busy'') ''Delete share error.'' =
     Inl (InvalidShare [Txt ''Delete share error.'', Txt [CHR 0x0A], Txt ''result: '',
                        Val (error_envelope (JInt 1077949061) ''busy''), Txt ''.'']) \<and>
   assert_rest_result (error_envelope (JInt 0) ''0'') ''Delete share error.'' = Inr () \<and>
   assert_data_in_result (JObj [(''error'', JObj [(''code'', JInt 0)])]) ''Create share error.'' =
     Inl (InvalidShare [Txt ''Create share error.'',
            Txt ('' '' @ [CHR 0x22] @ ''data'' @ [CHR 0x22] @ '' was not in result.'')]) \<and>
   assert_data_in_result (JObj [(''error'', JObj [(''code'', JInt 0)]), (''data'', JObj [])])
     ''Create share error.'' = Inr ()"
  using assert_helpers_exact [of "error_envelope (JInt 1077949061) ''busy''" "JInt 1077949061"
          "''Delete share error.''" "[(''error'', JObj [(''code'', JInt 0)])]" "''Create share error.''"]
        assert_helpers_exact [of "error_envelope (JInt 0) ''0''" "JInt 0" "''Delete share error.''"
          "[(''error'', JObj [(''code'', JInt 0)]), (''data'', JObj [])]" "''Create share error.''"]
  by (simp add: error_code_envelope)

section \<open>The transport\<close>

text \<open>
  C7. Whenever \<^verbatim>\<open>do_call\<close> sends a request (the helper has a session and the method
  is one of the four), it returns a result and does not raise in these cases: when the
  exchange fails, the envelope with the connect-to-server code and the description
  \<^verbatim>\<open>Connect server error\<close>; when the response has a 4xx or 5xx status, the envelope
  with that status as code and the text of the HTTP error as description; when the
  response has another status and a JSON body, that body unchanged.
\<close>

theorem do_call_envelopes:
  assumes "session s = Some hdrs"
    and "effective_method method \<in> {''POST'', ''PUT'', ''GET'', ''DELETE''}"
  shows "(net (wire s) (make_request s hdrs path data (effective_method method) t) = Failed \<longrightarrow>
            fst (do_call net K s path data method t) =
              Inr (JObj [(''error'', JObj [(''code'', JInt (ERROR_CONNECT_TO_SERVER K)),
                                           (''description'', JStr ''Connect server error'')])])) \<and>
         (\<forall>res. net (wire s) (make_request s hdrs path data (effective_method method) t) = Returned res \<longrightarrow>
            400 \<le> status_code res \<and> status_code res < 600 \<longrightarrow>
            fst (do_call net K s path data method t) =
              Inr (JObj [(''error'', JObj [(''code'', JInt (status_code res)),
                                           (''description'', JStr (error_text res))])])) \<and>
         (\<forall>res result. net (wire s) (make_request s hdrs path data (effective_method method) t) = Returned res \<longrightarrow>
            \<not> (400 \<le> status_code res \<and> status_code res < 600) \<longrightarrow> body res = Some result \<longrightarrow>
            fst (do_call net K s path data method t) = Inr result)"
  using assms
  by (simp add: do_call_sent result_of_def is_http_error_def error_envelope_def)

theorem do_call_envelopes_witness:
  "fst (do_call net_down K0 s0 ''/filesystem'' None (Some ''GET'') 52) =
     Inr (JObj [(''error'', JObj [(''code'', JInt (- 403)),
                                  (''description'', JStr ''Connect server error'')])]) \<and>
   fst (do_call net_503 K0 s0 ''/filesystem'' None (Some ''GET'') 52) =
     Inr (JObj [(''error'', JObj [(''code'', JInt 503),
                                  (''description'', JStr ''503 Server Error'')])]) \<and>
   fst (do_call net_ok K0 s0 ''/filesystem'' None None 52) =
     Inr (envelope 0 [(''data'', JObj [(''ID'', JStr ''7'')])])"
  using do_call_envelopes [of s0 "fresh_headers @ [(''iBaseToken'', JStr ''t0'')]" "Some ''GET''"
          net_down "''/filesystem''" None 52 K0]
        do_call_envelopes [of s0 "fresh_headers @ [(''iBaseToken'', JStr ''t0'')]" "Some ''GET''"
          net_503 "''/filesystem''" None 52 K0]
        do_call_envelopes [of s0 "fresh_headers @ [(''iBaseToken'', JStr ''t0'')]" None
          net_ok "''/filesystem''" None 52 K0]
  by (simp add: s0_def K0_def net_down_def net_503_def net_ok_def http_ok_def
        effective_method_def truthy_str_def)

section \<open>The session manager\<close>

lemma login_do_call:
  "do_call net K (init_http_head s) (strip_newlines v @ ''xx/sessions'')
     (Some (JObj [(''username'', JStr (UserName li)), (''password'', JStr (UserPassword li)),
                  (''scope'', JStr ''0'')])) None (LOGIN_SOCKET_TIMEOUT K) =
   (result_of K (net (wire s) (login_request K li v)),
    (init_http_head s)\<lparr>wire := wire s @ [login_request K li v]\<rparr>)"
  by (simp add: do_call_def init_http_head_def effective_method_def truthy_str_def
        make_request_def login_request_def fresh_headers_def Let_def)

lemma init_http_head_twice:
  "init_http_head ((init_http_head s)\<lparr>wire := w\<rparr>) = (init_http_head s)\<lparr>wire := w\<rparr>"
  by (simp add: init_http_head_def)

lemma login_loop_reach:
  assumes "\<forall>i<length pre. \<exists>r. login_reply net K li (wire s) (pre @ u # post) i = Inr r \<and> login_failed r = Inr True"
  shows "login_loop net K li (pre @ u # post) s =
           (let s1 = (init_http_head s)\<lparr>wire := wire s @ map (login_request K li) (pre @ [u])\<rparr> in
            case login_reply net K li (wire s) (pre @ u # post) (length pre) of
              Inl e \<Rightarrow> (Inl e, s1)
            | Inr r \<Rightarrow>
                (case login_failed r of
                   Inl e \<Rightarrow> (Inl e, s1)
                 | Inr True \<Rightarrow> login_loop net K li post s1
                 | Inr False \<Rightarrow> login_accept net K u r s1))"
  using assms
proof (induction pre arbitrary: s)
  case Nil
  show ?case
    by (simp add: login_do_call login_reply_def Let_def split: sum.splits bool.splits)
next
  case (Cons v pre)
  let ?s1 = "(init_http_head s)\<lparr>wire := wire s @ [login_request K li v]\<rparr>"
  from Cons.prems have first: "\<exists>r. login_reply net K li (wire s) ((v # pre) @ u # post) 0 = Inr r \<and> login_failed r = Inr True"
    by auto
  then obtain r where r: "result_of K (net (wire s) (login_request K li v)) = Inr r" "login_failed r = Inr True"
    by (auto simp: login_reply_def)
  have step: "login_loop net K li ((v # pre) @ u # post) s = login_loop net K li (pre @ u # post) ?s1"
    using r by (simp add: login_do_call)
  have reply: "\<And>i. login_reply net K li (wire s) (v # pre @ u # post) (Suc i) =
                    login_reply net K li (wire s @ [login_request K li v]) (pre @ u # post) i"
    by (simp add: login_reply_def)
  have "\<forall>i<length pre. \<exists>r. login_reply net K li (wire ?s1) (pre @ u # post) i = Inr r \<and> login_failed r = Inr True"
  proof (intro allI impI)
    fix i assume "i < length pre"
    then have "Suc i < length (v # pre)" by simp
    with Cons.prems have "\<exists>r. login_reply net K li (wire s) ((v # pre) @ u # post) (Suc i) = Inr r \<and> login_failed r = Inr True"
      by blast
    then show "\<exists>r. login_reply net K li (wire ?s1) (pre @ u # post) i = Inr r \<and> login_failed r = Inr True"
      by (simp add: reply)
  qed
  from Cons.IH [OF this] show ?case
    unfolding step by (simp add: reply init_http_head_twice Let_def)
qed

lemma do_call_keeps: "url (snd (do_call net K s p d m t)) = url s \<and> session (snd (do_call net K s p d m t)) = session s"
  by (simp add: do_call_def Let_def split: option.splits)

lemma logout_sent:
  assumes "session s = Some hdrs" and "url s = Some base" and "base \<noteq> []"
  shows "logout net K s =
           ((case result_of K (net (wire s) (logout_request K base hdrs)) of
               Inl e \<Rightarrow> Inl e
             | Inr lr \<Rightarrow> assert_rest_result lr ''Logout session error.''),
            s\<lparr>wire := wire s @ [logout_request K base hdrs]\<rparr>)"
  using assms
  by (simp add: logout_def do_call_def effective_method_def truthy_str_def make_request_def
        logout_request_def Let_def split: sum.splits)

lemma login_accept_ok:
  assumes "session s = Some hdrs" and "getitem r ''data'' = Inr d"
    and "getitem d ''deviceid'' = Inr (JStr dev)" and "getitem d ''iBaseToken'' = Inr tok"
    and "getitem d ''accountstate'' = Inr st"
    and "\<not> (\<exists>n \<in> set (PWD_EXPIRED_OR_INITIAL K). eq_int st n)"
  shows "login_accept net K u r s =
           (Inr dev, s\<lparr>url := Some (u @ dev), session := Some (dict_set hdrs ''iBaseToken'' tok)\<rparr>)"
  using assms by (simp add: login_accept_def Let_def)

lemma login_accept_expired:
  assumes "session s = Some hdrs" and "getitem r ''data'' = Inr d"
    and "getitem d ''deviceid'' = Inr (JStr dev)" and "getitem d ''iBaseToken'' = Inr tok"
    and "getitem d ''accountstate'' = Inr st"
    and "\<exists>n \<in> set (PWD_EXPIRED_OR_INITIAL K). eq_int st n"
    and "u @ dev \<noteq> []"
  shows "login_accept net K u r s =
           (Inl (case result_of K (net (wire s)
                        (logout_request K (u @ dev) (dict_set hdrs ''iBaseToken'' tok))) of
                   Inl e \<Rightarrow> e
                 | Inr lr \<Rightarrow>
                     (case assert_rest_result lr ''Logout session error.'' of
                        Inl e \<Rightarrow> e
                      | Inr v \<Rightarrow> ShareBackendException
                          [Txt ''Password has expired or initial, please change the password.''])),
            s\<lparr>url := Some (u @ dev), session := Some (dict_set hdrs ''iBaseToken'' tok),
              wire := wire s @ [logout_request K (u @ dev) (dict_set hdrs ''iBaseToken'' tok)]\<rparr>)"
proof -
  let ?s2 = "s\<lparr>url := Some (u @ dev), session := Some (dict_set hdrs ''iBaseToken'' tok)\<rparr>"
  have lo: "logout net K ?s2 =
           ((case result_of K (net (wire s) (logout_request K (u @ dev) (dict_set hdrs ''iBaseToken'' tok))) of
               Inl e \<Rightarrow> Inl e
             | Inr lr \<Rightarrow> assert_rest_result lr ''Logout session error.''),
            ?s2\<lparr>wire := wire s @ [logout_request K (u @ dev) (dict_set hdrs ''iBaseToken'' tok)]\<rparr>)"
    using logout_sent [of ?s2 "dict_set hdrs ''iBaseToken'' tok" "u @ dev" net K] assms(7) by simp
  show ?thesis
    using assms(1-6) by (simp add: login_accept_def Let_def lo split: sum.splits)
qed

lemma snd_case_result:
  "snd (case p of (Inl e, s1) \<Rightarrow> (f e, s1) | (Inr r, s1) \<Rightarrow> (g r, s1)) = snd p"
  by (auto split: prod.splits sum.splits)

lemma logout_keeps: "url (snd (logout net K s)) = url s \<and> session (snd (logout net K s)) = session s"
  by (simp add: logout_def snd_case_result do_call_keeps split: option.splits)

lemma login_accept_url:
  assumes "getitem r ''data'' = Inr d" and "getitem d ''deviceid'' = Inr (JStr dev)"
  shows "url (snd (login_accept net K u r s)) = Some (u @ dev)"
  using assms
  by (simp add: login_accept_def Let_def snd_case_result logout_keeps
        split: sum.splits option.splits)

lemma split_on_nonempty: "split_on c t \<noteq> []"
  by (induction t) (auto split: list.splits)

lemma rejectedD:
  "rejected net K li h urls i \<Longrightarrow> \<exists>r. login_reply net K li h urls i = Inr r \<and> login_failed r = Inr True"
  by (auto simp: rejected_def split: sum.splits)

lemma login_at:
  assumes k: "k < length urls"
    and rej: "\<forall>i<k. rejected net K li (wire s) urls i"
  shows "login_loop net K li urls s =
           (let s1 = (init_http_head s)\<lparr>wire := wire s @ map (login_request K li) (take (Suc k) urls)\<rparr> in
            case login_reply net K li (wire s) urls k of
              Inl e \<Rightarrow> (Inl e, s1)
            | Inr r \<Rightarrow>
                (case login_failed r of
                   Inl e \<Rightarrow> (Inl e, s1)
                 | Inr True \<Rightarrow> login_loop net K li (drop (Suc k) urls) s1
                 | Inr False \<Rightarrow> login_accept net K (urls ! k) r s1))"
proof -
  have urls: "urls = take k urls @ urls ! k # drop (Suc k) urls"
    using k by (rule id_take_nth_drop)
  have len: "length (take k urls) = k" using k by simp
  have "\<forall>i<length (take k urls). \<exists>r. login_reply net K li (wire s) (take k urls @ urls ! k # drop (Suc k) urls) i = Inr r
            \<and> login_failed r = Inr True"
    using rej rejectedD urls len by metis
  from login_loop_reach [OF this] show ?thesis
    using urls len k by (simp add: take_Suc_conv_app_nth)
qed

lemma fresh_set_token:
  "dict_set [(''Connection'', JStr ''keep-alive''), (''Content-Type'', JStr ''application/json'')]
     ''iBaseToken'' tok = fresh_headers @ [(''iBaseToken'', tok)]"
  by (simp add: dict_set_def fresh_headers_def)

lemma error_code_obj: "error_code r = Inr c \<Longrightarrow> \<exists>kvs. r = JObj kvs"
  by (cases r) (auto simp: error_code_def)

lemma passed_over_failed: "passed_over r \<Longrightarrow> login_failed r = Inr True"
  by (auto simp: passed_over_def login_failed_def getitem_contains
           split: sum.splits dest!: error_code_obj)

lemma accepted_not_failed:
  "error_code r = Inr c \<Longrightarrow> eq_int c 0 \<Longrightarrow> getitem r ''data'' = Inr d \<Longrightarrow>
   getitem d ''deviceid'' = Inr dev \<Longrightarrow> dev \<noteq> JNull \<Longrightarrow> login_failed r = Inr False"
  by (simp add: login_failed_def getitem_contains)

lemma check_raises_failed: "check_raises (Inr r) e \<Longrightarrow> login_failed r = Inl e"
  by (auto simp: check_raises_def login_failed_def getitem_contains split: sum.splits)

lemma passed_over_rejected:
  "\<exists>r. login_reply net K li h urls i = Inr r \<and> passed_over r \<Longrightarrow> rejected net K li h urls i"
  by (auto simp: rejected_def passed_over_failed)

text \<open>
  C5, as the code has it. \<^verbatim>\<open>login\<close> tries the candidates of the semicolon-separated
  \<^verbatim>\<open>RestURL\<close> in their order, each with a fresh session and no base URL (the requests
  on the wire are the \<open>login_request\<close>s of the candidates, in order). A candidate is
  passed over when its response has a code other than 0, or code 0 and no \<^verbatim>\<open>data\<close>, or
  code 0 and \<^verbatim>\<open>data\<close> with the device id \<^verbatim>\<open>None\<close>. When the candidates before \<open>k\<close> are
  passed over and the response of candidate \<open>k\<close> has code 0, \<^verbatim>\<open>data\<close> and a device id
  that is a string, the base URL afterwards is that candidate followed by the device
  id; when the token and an account state outside the expired set are there too,
  \<^verbatim>\<open>login\<close> returns the device id and no later candidate is tried. When every candidate
  is passed over, \<^verbatim>\<open>login\<close> raises \<open>InvalidShare\<close> with \<^verbatim>\<open>All url login fail.\<close> When
  the candidates before \<open>k\<close> are passed over and the answer of candidate \<open>k\<close> cannot be
  put to the test (no JSON body, no error code, a \<^verbatim>\<open>data\<close> from which the device id
  cannot be read), \<^verbatim>\<open>login\<close> raises that error at once, with no base URL, and no
  later candidate is tried.
\<close>

theorem login_first_accepted:
  assumes "urls = split_on CHR '';'' (RestURL li)"
  shows "(\<forall>k r c d dev.
            k < length urls \<and>
            (\<forall>i<k. \<exists>r'. login_reply net K li (wire s) urls i = Inr r' \<and> passed_over r') \<and>
            login_reply net K li (wire s) urls k = Inr r \<and> error_code r = Inr c \<and> eq_int c 0 \<and>
            getitem r ''data'' = Inr d \<and> getitem d ''deviceid'' = Inr (JStr dev) \<longrightarrow>
              url (snd (login net K li s)) = Some (urls ! k @ dev) \<and>
              (\<forall>tok st. getitem d ''iBaseToken'' = Inr tok \<and> getitem d ''accountstate'' = Inr st \<and>
                         (\<forall>n \<in> set (PWD_EXPIRED_OR_INITIAL K). \<not> eq_int st n) \<longrightarrow>
                 login net K li s =
                   (Inr dev,
                    s\<lparr>url := Some (urls ! k @ dev),
                      session := Some (fresh_headers @ [(''iBaseToken'', tok)]),
                      wire := wire s @ map (login_request K li) (take (Suc k) urls)\<rparr>))) \<and>
         ((\<forall>i<length urls. \<exists>r'. login_reply net K li (wire s) urls i = Inr r' \<and> passed_over r') \<longrightarrow>
            login net K li s =
              (Inl (InvalidShare [Txt ''All url login fail.'']),
               s\<lparr>url := None, session := Some fresh_headers,
                 wire := wire s @ map (login_request K li) urls\<rparr>)) \<and>
         (\<forall>k e.
            k < length urls \<and>
            (\<forall>i<k. \<exists>r'. login_reply net K li (wire s) urls i = Inr r' \<and> passed_over r') \<and>
            check_raises (login_reply net K li (wire s) urls k) e \<longrightarrow>
              login net K li s =
                (Inl e,
                 s\<lparr>url := None, session := Some fresh_headers,
                   wire := wire s @ map (login_request K li) (take (Suc k) urls)\<rparr>))"
proof (intro conjI allI impI)
  fix k r c d dev
  assume h: "k < length urls \<and>
            (\<forall>i<k. \<exists>r'. login_reply net K li (wire s) urls i = Inr r' \<and> passed_over r') \<and>
            login_reply net K li (wire s) urls k = Inr r \<and> error_code r = Inr c \<and> eq_int c 0 \<and>
            getitem r ''data'' = Inr d \<and> getitem d ''deviceid'' = Inr (JStr dev)"
  let ?s1 = "(init_http_head s)\<lparr>wire := wire s @ map (login_request K li) (take (Suc k) urls)\<rparr>"
  have rej: "\<forall>i<k. rejected net K li (wire s) urls i"
    using h passed_over_rejected by blast
  have ok: "login_failed r = Inr False"
    using h accepted_not_failed [of r c d "JStr dev"] by simp
  have eq: "login net K li s = login_accept net K (urls ! k) r ?s1"
    using h rej ok login_at [of k urls net K li s] by (simp add: login_def assms Let_def)
  show "url (snd (login net K li s)) = Some (urls ! k @ dev)"
    using h by (simp add: eq login_accept_url)
  fix tok st
  assume g: "getitem d ''iBaseToken'' = Inr tok \<and> getitem d ''accountstate'' = Inr st \<and>
             (\<forall>n \<in> set (PWD_EXPIRED_OR_INITIAL K). \<not> eq_int st n)"
  have "login_accept net K (urls ! k) r ?s1 =
          (Inr dev, ?s1\<lparr>url := Some (urls ! k @ dev),
                         session := Some (dict_set [(''Connection'', JStr ''keep-alive''),
                            (''Content-Type'', JStr ''application/json'')] ''iBaseToken'' tok)\<rparr>)"
    using h g by (intro login_accept_ok [where d = d and st = st]) (simp_all add: init_http_head_def)
  then show "login net K li s =
                   (Inr dev,
                    s\<lparr>url := Some (urls ! k @ dev),
                      session := Some (fresh_headers @ [(''iBaseToken'', tok)]),
                      wire := wire s @ map (login_request K li) (take (Suc k) urls)\<rparr>)"
    by (simp add: eq fresh_set_token init_http_head_def)
next
  assume all: "\<forall>i<length urls. \<exists>r'. login_reply net K li (wire s) urls i = Inr r' \<and> passed_over r'"
  have ne: "urls \<noteq> []" by (simp add: assms split_on_nonempty)
  define k where "k = length urls - 1"
  have k: "k < length urls" "Suc k = length urls" using ne by (simp_all add: k_def)
  have rej: "\<forall>i<length urls. rejected net K li (wire s) urls i"
    using all passed_over_rejected by blast
  then have "\<forall>i<k. rejected net K li (wire s) urls i" using k by simp
  from login_at [OF k(1) this] rejectedD [OF rej [rule_format, OF k(1)]]
  show "login net K li s =
              (Inl (InvalidShare [Txt ''All url login fail.'']),
               s\<lparr>url := None, session := Some fresh_headers,
                 wire := wire s @ map (login_request K li) urls\<rparr>)"
    using k(2) by (auto simp: login_def assms [symmetric] Let_def init_http_head_def fresh_headers_def)
next
  fix k e
  assume h: "k < length urls \<and>
            (\<forall>i<k. \<exists>r'. login_reply net K li (wire s) urls i = Inr r' \<and> passed_over r') \<and>
            check_raises (login_reply net K li (wire s) urls k) e"
  have rej: "\<forall>i<k. rejected net K li (wire s) urls i"
    using h passed_over_rejected by blast
  have k: "k < length urls" using h by simp
  show "login net K li s =
                (Inl e,
                 s\<lparr>url := None, session := Some fresh_headers,
                   wire := wire s @ map (login_request K li) (take (Suc k) urls)\<rparr>)"
  proof (cases "login_reply net K li (wire s) urls k")
    case (Inl e')
    with h have "e' = e" by (simp add: check_raises_def)
    with Inl login_at [OF k rej] show ?thesis
      by (simp add: login_def assms [symmetric] Let_def init_http_head_def fresh_headers_def)
  next
    case (Inr r)
    with h have "login_failed r = Inl e" by (simp add: check_raises_failed)
    with Inr login_at [OF k rej] show ?thesis
      by (simp add: login_def assms [symmetric] Let_def init_http_head_def fresh_headers_def)
  qed
qed

theorem login_first_accepted_witness:
  "login net_c K0 li0 s_new =
     (Inr ''22'',
      \<lparr>url = Some ''http://c/22'',
       session = Some (fresh_headers @ [(''iBaseToken'', JStr ''t1'')]),
       wire = [login_request K0 li0 ''http://a/'', login_request K0 li0 ''http://b/'',
               login_request K0 li0 ''http://c/'']\<rparr>) \<and>
   login net_down K0 li0 s_new =
     (Inl (InvalidShare [Txt ''All url login fail.'']),
      \<lparr>url = None, session = Some fresh_headers,
       wire = [login_request K0 li0 ''http://a/'', login_request K0 li0 ''http://b/'',
               login_request K0 li0 ''http://c/'']\<rparr>) \<and>
   login net_html K0 li0 s_new =
     (Inl ValueError,
      \<lparr>url = None, session = Some fresh_headers,
       wire = [login_request K0 li0 ''http://a/'', login_request K0 li0 ''http://b/'']\<rparr>)"
proof -
  let ?urls = "[''http://a/'', ''http://b/'', ''http://c/'']"
  let ?d = "JObj [(''deviceid'', JStr ''22''), (''iBaseToken'', JStr ''t1''), (''accountstate'', JInt 1)]"
  have urls: "?urls = split_on CHR '';'' (RestURL li0)"
    by (simp add: li0_def)
  have c0: "login_reply net_c K0 li0 [] ?urls 0 = Inr (envelope 0 [])"
    and c1: "login_reply net_c K0 li0 [] ?urls 1 =
               Inr (envelope 0 [(''data'', JObj [(''deviceid'', JNull)])])"
    and c2: "login_reply net_c K0 li0 [] ?urls 2 = Inr (login_body 1)"
    by (simp_all add: login_reply_def net_c_def login_request_def strip_newlines_def
          result_of_def http_ok_def is_http_error_def)
  have p0: "passed_over (envelope 0 [])"
    and p1: "passed_over (envelope 0 [(''data'', JObj [(''deviceid'', JNull)])])"
    by (simp_all add: passed_over_def envelope_def error_code_def)
  have before: "\<forall>i<2. \<exists>r'. login_reply net_c K0 li0 [] ?urls i = Inr r' \<and> passed_over r'"
    using c0 c1 p0 p1 by (simp add: less_Suc_eq numeral_2_eq_2)
  have a2: "error_code (login_body 1) = Inr (JInt 0)" "getitem (login_body 1) ''data'' = Inr ?d"
    by (simp_all add: login_body_def envelope_def error_code_def)
  have down: "\<forall>i<3. \<exists>r'. login_reply net_down K0 li0 [] ?urls i = Inr r' \<and> passed_over r'"
    by (simp add: login_reply_def net_down_def result_of_def passed_over_def error_code_envelope K0_def)
  have h0: "login_reply net_html K0 li0 [] ?urls 0 =
              Inr (error_envelope (JInt (- 403)) ''Connect server error'')"
    and h1: "login_reply net_html K0 li0 [] ?urls 1 = Inl ValueError"
    by (simp_all add: login_reply_def net_html_def login_request_def strip_newlines_def
          result_of_def is_http_error_def K0_def)
  have hp: "passed_over (error_envelope (JInt (- 403)) ''Connect server error'')"
    by (simp add: passed_over_def error_code_envelope)
  have hb: "\<forall>i<1. \<exists>r'. login_reply net_html K0 li0 [] ?urls i = Inr r' \<and> passed_over r'"
    using h0 hp by simp
  have hr: "check_raises (login_reply net_html K0 li0 [] ?urls 1) ValueError"
    unfolding h1 by (simp add: check_raises_def)
  show ?thesis
    using login_first_accepted [OF urls, of net_c K0 s_new, THEN conjunct1, rule_format,
            of 2 "login_body 1" "JInt 0" ?d "''22''",
            THEN conjunct2, rule_format, of "JStr ''t1''" "JInt 1"]
          login_first_accepted [OF urls, of net_down K0 s_new, THEN conjunct2, THEN conjunct1,
            rule_format]
          login_first_accepted [OF urls, of net_html K0 s_new, THEN conjunct2, THEN conjunct2,
            rule_format, of 1 ValueError]
          before c2 a2 down hb hr
    by (simp add: s_new_def K0_def)
qed

text \<open>
  Against C5 as stated: the first candidate answers with code 0 and a \<^verbatim>\<open>data\<close> that has
  no device id, the second with code 0, \<^verbatim>\<open>data\<close> and the device id \<^verbatim>\<open>22\<close>. The second
  is the first candidate that has all three, yet \<^verbatim>\<open>login\<close> does not accept it and does
  not raise \<^verbatim>\<open>All url login fail.\<close> either: reading the device id of the first answer
  raises \<open>KeyError\<close>, and the second candidate is never asked.
\<close>

theorem login_raises_on_malformed_reply:
  "login_reply net_malformed K0 li0 [] [''http://a/'', ''http://b/'', ''http://c/''] 0 =
     Inr (envelope 0 [(''data'', JObj [])]) \<and>
   login_reply net_malformed K0 li0 [] [''http://a/'', ''http://b/'', ''http://c/''] 1 =
     Inr (envelope 0 [(''data'', JObj [(''deviceid'', JStr ''22''), (''iBaseToken'', JStr ''t1''),
                                      (''accountstate'', JInt 1)])]) \<and>
   login net_malformed K0 li0 s_new =
     (Inl (KeyError ''deviceid''),
      \<lparr>url = None, session = Some fresh_headers, wire = [login_request K0 li0 ''http://a/'']\<rparr>)"
  by (simp add: login_def li0_def login_do_call login_reply_def login_request_def strip_newlines_def
        net_malformed_def result_of_def http_ok_def is_http_error_def login_failed_def
        login_body_def envelope_def error_code_def init_http_head_def fresh_headers_def s_new_def
        do_call_def effective_method_def truthy_str_def make_request_def Let_def K0_def)

text \<open>
  C6, as the code has it. When the first accepted response carries an account state of
  the expired set, \<^verbatim>\<open>login\<close> sends the logout request (a DELETE of \<^verbatim>\<open>/sessions\<close> under
  the new base URL, with the new token) and raises: \<open>ShareBackendException\<close> when the
  logout succeeded, the error of the logout otherwise. The base URL and the token of
  the rejected session stay in the helper. When every candidate is rejected, \<^verbatim>\<open>login\<close>
  raises and leaves no base URL and a session without token.
\<close>

theorem login_password_expired:
  assumes "urls = split_on CHR '';'' (RestURL li)"
  shows "(\<forall>k r d dev tok st.
            k < length urls \<and> (\<forall>i<k. rejected net K li (wire s) urls i) \<and>
            login_reply net K li (wire s) urls k = Inr r \<and> login_failed r = Inr False \<and>
            getitem r ''data'' = Inr d \<and> getitem d ''deviceid'' = Inr (JStr dev) \<and>
            getitem d ''iBaseToken'' = Inr tok \<and> getitem d ''accountstate'' = Inr st \<and>
            (\<exists>n \<in> set (PWD_EXPIRED_OR_INITIAL K). eq_int st n) \<and> urls ! k @ dev \<noteq> [] \<longrightarrow>
              (\<exists>e. login net K li s =
                      (Inl e,
                       s\<lparr>url := Some (urls ! k @ dev),
                         session := Some (fresh_headers @ [(''iBaseToken'', tok)]),
                         wire := wire s @ map (login_request K li) (take (Suc k) urls) @
                                 [logout_request K (urls ! k @ dev)
                                    (fresh_headers @ [(''iBaseToken'', tok)])]\<rparr>) \<and>
                    (\<forall>lr c. result_of K (net (wire s @ map (login_request K li) (take (Suc k) urls))
                                (logout_request K (urls ! k @ dev)
                                   (fresh_headers @ [(''iBaseToken'', tok)]))) = Inr lr \<and>
                            error_code lr = Inr c \<and> eq_int c 0 \<longrightarrow>
                       e = ShareBackendException
                             [Txt ''Password has expired or initial, please change the password.'']))) \<and>
         ((\<forall>i<length urls. rejected net K li (wire s) urls i) \<longrightarrow>
            fst (login net K li s) = Inl (InvalidShare [Txt ''All url login fail.'']) \<and>
            url (snd (login net K li s)) = None \<and>
            session (snd (login net K li s)) = Some fresh_headers)"
proof (intro conjI allI impI)
  fix k r d dev tok st
  assume h: "k < length urls \<and> (\<forall>i<k. rejected net K li (wire s) urls i) \<and>
            login_reply net K li (wire s) urls k = Inr r \<and> login_failed r = Inr False \<and>
            getitem r ''data'' = Inr d \<and> getitem d ''deviceid'' = Inr (JStr dev) \<and>
            getitem d ''iBaseToken'' = Inr tok \<and> getitem d ''accountstate'' = Inr st \<and>
            (\<exists>n \<in> set (PWD_EXPIRED_OR_INITIAL K). eq_int st n) \<and> urls ! k @ dev \<noteq> []"
  let ?s1 = "(init_http_head s)\<lparr>wire := wire s @ map (login_request K li) (take (Suc k) urls)\<rparr>"
  let ?hd = "[(''Connection'', JStr ''keep-alive''), (''Content-Type'', JStr ''application/json'')]"
  have eq: "login net K li s = login_accept net K (urls ! k) r ?s1"
    using h login_at [of k urls net K li s] by (simp add: login_def assms Let_def)
  have acc: "login_accept net K (urls ! k) r ?s1 =
           (Inl (case result_of K (net (wire ?s1)
                        (logout_request K (urls ! k @ dev) (dict_set ?hd ''iBaseToken'' tok))) of
                   Inl e \<Rightarrow> e
                 | Inr lr \<Rightarrow>
                     (case assert_rest_result lr ''Logout session error.'' of
                        Inl e \<Rightarrow> e
                      | Inr v \<Rightarrow> ShareBackendException
                          [Txt ''Password has expired or initial, please change the password.''])),
            ?s1\<lparr>url := Some (urls ! k @ dev), session := Some (dict_set ?hd ''iBaseToken'' tok),
              wire := wire ?s1 @ [logout_request K (urls ! k @ dev) (dict_set ?hd ''iBaseToken'' tok)]\<rparr>)"
    using h by (intro login_accept_expired [where d = d and st = st]) (simp_all add: init_http_head_def)
  show "\<exists>e. login net K li s =
                      (Inl e,
                       s\<lparr>url := Some (urls ! k @ dev),
                         session := Some (fresh_headers @ [(''iBaseToken'', tok)]),
                         wire := wire s @ map (login_request K li) (take (Suc k) urls) @
                                 [logout_request K (urls ! k @ dev)
                                    (fresh_headers @ [(''iBaseToken'', tok)])]\<rparr>) \<and>
                    (\<forall>lr c. result_of K (net (wire s @ map (login_request K li) (take (Suc k) urls))
                                (logout_request K (urls ! k @ dev)
                                   (fresh_headers @ [(''iBaseToken'', tok)]))) = Inr lr \<and>
                            error_code lr = Inr c \<and> eq_int c 0 \<longrightarrow>
                       e = ShareBackendException
                             [Txt ''Password has expired or initial, please change the password.''])"
    unfolding eq acc
    by (auto simp: fresh_set_token init_http_head_def assert_rest_result_def)
next
  assume all: "\<forall>i<length urls. rejected net K li (wire s) urls i"
  have ne: "urls \<noteq> []" by (simp add: assms split_on_nonempty)
  define k where "k = length urls - 1"
  have k: "k < length urls" "Suc k = length urls" using ne by (simp_all add: k_def)
  have "\<forall>i<k. rejected net K li (wire s) urls i" using all k by simp
  from login_at [OF k(1) this] rejectedD [OF all [rule_format, OF k(1)]]
  have "login net K li s =
              (Inl (InvalidShare [Txt ''All url login fail.'']),
               s\<lparr>url := None, session := Some fresh_headers,
                 wire := wire s @ map (login_request K li) urls\<rparr>)"
    using k(2) by (auto simp: login_def assms [symmetric] Let_def init_http_head_def fresh_headers_def)
  then show "fst (login net K li s) = Inl (InvalidShare [Txt ''All url login fail.''])"
    and "url (snd (login net K li s)) = None"
    and "session (snd (login net K li s)) = Some fresh_headers"
    by simp_all
qed

text \<open>
  Against C6 as stated: after the login that raises for an expired password, the base
  URL and the token in the helper are those of the rejected session.
\<close>

theorem login_keeps_rejected_session:
  "login net_expired K0 li0 s_new =
     (Inl (ShareBackendException [Txt ''Password has expired or initial, please change the password.'']),
      \<lparr>url = Some ''http://a/22'',
       session = Some (fresh_headers @ [(''iBaseToken'', JStr ''t1'')]),
       wire = [login_request K0 li0 ''http://a/'',
               logout_request K0 ''http://a/22'' (fresh_headers @ [(''iBaseToken'', JStr ''t1'')])]\<rparr>)"
  by (simp add: login_def li0_def login_do_call login_request_def strip_newlines_def net_expired_def
        result_of_def http_ok_def is_http_error_def login_failed_def login_body_def envelope_def
        error_code_def login_accept_def init_http_head_def K0_def Let_def dict_set_def logout_def
        truthy_str_def do_call_def effective_method_def make_request_def assert_rest_result_def
        logout_request_def fresh_headers_def s_new_def)

theorem login_password_expired_witness:
  "fst (login net_expired K0 li0 s_new) =
     Inl (ShareBackendException [Txt ''Password has expired or initial, please change the password.'']) \<and>
   wire (snd (login net_expired K0 li0 s_new)) =
     [login_request K0 li0 ''http://a/'',
      logout_request K0 ''http://a/22'' (fresh_headers @ [(''iBaseToken'', JStr ''t1'')])] \<and>
   fst (login net_down K0 li0 s_new) = Inl (InvalidShare [Txt ''All url login fail.'']) \<and>
   url (snd (login net_down K0 li0 s_new)) = None \<and>
   session (snd (login net_down K0 li0 s_new)) = Some fresh_headers"
proof -
  let ?urls = "[''http://a/'', ''http://b/'', ''http://c/'']"
  let ?d = "JObj [(''deviceid'', JStr ''22''), (''iBaseToken'', JStr ''t1''), (''accountstate'', JInt 3)]"
  have urls: "?urls = split_on CHR '';'' (RestURL li0)"
    by (simp add: li0_def)
  have r0: "login_reply net_expired K0 li0 (wire s_new) ?urls 0 = Inr (login_body 3)"
    by (simp add: login_reply_def net_expired_def login_request_def strip_newlines_def
          result_of_def http_ok_def is_http_error_def)
  have r1: "login_failed (login_body 3) = Inr False" "getitem (login_body 3) ''data'' = Inr ?d"
    by (simp_all add: login_failed_def login_body_def envelope_def error_code_def)
  have r2: "\<exists>n \<in> set (PWD_EXPIRED_OR_INITIAL K0). eq_int (JInt 3) n"
    by (simp add: K0_def)
  have lo: "result_of K0 (net_expired (wire s_new @ map (login_request K0 li0) (take (Suc 0) ?urls))
              (logout_request K0 (?urls ! 0 @ ''22'') (fresh_headers @ [(''iBaseToken'', JStr ''t1'')])))
            = Inr (envelope 0 [])"
    by (simp add: net_expired_def logout_request_def result_of_def http_ok_def is_http_error_def)
  have lc: "error_code (envelope 0 []) = Inr (JInt 0)"
    by (simp add: envelope_def error_code_def)
  have down: "\<forall>i<length ?urls. rejected net_down K0 li0 (wire s_new) ?urls i"
    by (simp add: rejected_def login_reply_def net_down_def result_of_def login_failed_def
          error_code_envelope K0_def)
  from login_password_expired [OF urls, of net_expired K0 s_new, THEN conjunct1, rule_format,
         of 0 "login_body 3" ?d "''22''" "JStr ''t1''" "JInt 3"] r0 r1 r2
  obtain e where e: "login net_expired K0 li0 s_new =
        (Inl e, s_new\<lparr>url := Some (?urls ! 0 @ ''22''),
                  session := Some (fresh_headers @ [(''iBaseToken'', JStr ''t1'')]),
                  wire := wire s_new @ map (login_request K0 li0) (take (Suc 0) ?urls) @
                     [logout_request K0 (?urls ! 0 @ ''22'') (fresh_headers @ [(''iBaseToken'', JStr ''t1'')])]\<rparr>)"
    and e': "\<forall>lr c. result_of K0 (net_expired (wire s_new @ map (login_request K0 li0) (take (Suc 0) ?urls))
                                (logout_request K0 (?urls ! 0 @ ''22'')
                                   (fresh_headers @ [(''iBaseToken'', JStr ''t1'')]))) = Inr lr \<and>
                            error_code lr = Inr c \<and> eq_int c 0 \<longrightarrow>
                       e = ShareBackendException
                             [Txt ''Password has expired or initial, please change the password.'']"
    by auto
  from e' lo lc have "e = ShareBackendException
                             [Txt ''Password has expired or initial, please change the password.'']"
    by simp
  with e login_password_expired [OF urls, of net_down K0 s_new, THEN conjunct2, THEN mp, OF down]
  show ?thesis
    by (simp add: s_new_def)
qed

lemma do_call_returned:
  assumes "do_call net K s p d m t = (Inr r, s1)"
  shows "\<exists>hdrs. session s = Some hdrs \<and> effective_method m \<in> {''POST'', ''PUT'', ''GET'', ''DELETE''} \<and>
           s1 = s\<lparr>wire := wire s @ [make_request s hdrs p d (effective_method m) t]\<rparr>"
  using assms by (auto simp: do_call_def Let_def split: option.splits if_splits)

lemma login_accept_returned:
  assumes "login_accept net K u r s = (Inr dev, s2)"
  shows "session s2 \<noteq> None"
  using assms
  by (auto simp: login_accept_def Let_def split: sum.splits json.splits option.splits if_splits prod.splits)

lemma login_loop_returned:
  "login_loop net K li urls s = (Inr dev, s2) \<Longrightarrow> session s2 \<noteq> None"
proof (induction urls arbitrary: s)
  case Nil
  then show ?case by simp
next
  case (Cons v urls)
  then show ?case
    by (auto simp: login_do_call split: sum.splits bool.splits dest: login_accept_returned)
qed

text \<open>
  C1, as the code has it. Let the first exchange of \<^verbatim>\<open>call\<close> give a result whose error
  code can be read. When the code equals (Python's \<^verbatim>\<open>==\<close>) neither the connect-to-server
  nor the unauthorized code, \<^verbatim>\<open>call\<close> returns that result and sends nothing more. When
  it equals one of the two, \<^verbatim>\<open>call\<close> runs \<^verbatim>\<open>login\<close> once: if \<^verbatim>\<open>login\<close> raises, \<^verbatim>\<open>call\<close> raises the
  same error and the request is not sent again; if \<^verbatim>\<open>login\<close> returns, \<^verbatim>\<open>call\<close> sends the
  request exactly once more, from the state \<^verbatim>\<open>login\<close> left, and returns what that
  exchange gives, whatever its code. So one \<^verbatim>\<open>call\<close> sends its request at most twice and
  runs \<^verbatim>\<open>login\<close> at most once.
\<close>

theorem call_relogin_once:
  assumes "do_call net K s path data method (SOCKET_TIMEOUT K) = (Inr r1, s1)"
    and "error_code r1 = Inr c"
  shows "(\<exists>hdrs. session s = Some hdrs \<and>
            wire s1 = wire s @ [make_request s hdrs path data (effective_method method) (SOCKET_TIMEOUT K)]) \<and>
         (\<not> eq_int c (ERROR_CONNECT_TO_SERVER K) \<and> \<not> eq_int c (ERROR_UNAUTHORIZED_TO_SERVER K) \<longrightarrow>
            call net K li s path data method = (Inr r1, s1)) \<and>
         (eq_int c (ERROR_CONNECT_TO_SERVER K) \<or> eq_int c (ERROR_UNAUTHORIZED_TO_SERVER K) \<longrightarrow>
            (\<forall>e s2. login net K li s1 = (Inl e, s2) \<longrightarrow>
               call net K li s path data method = (Inl e, s2)) \<and>
            (\<forall>dev s2. login net K li s1 = (Inr dev, s2) \<longrightarrow>
               call net K li s path data method = do_call net K s2 path data method (SOCKET_TIMEOUT K) \<and>
               (\<exists>hdrs2. session s2 = Some hdrs2 \<and>
                  call net K li s path data method =
                    (result_of K (net (wire s2)
                        (make_request s2 hdrs2 path data (effective_method method) (SOCKET_TIMEOUT K))),
                     s2\<lparr>wire := wire s2 @
                        [make_request s2 hdrs2 path data (effective_method method) (SOCKET_TIMEOUT K)]\<rparr>))))"
proof -
  let ?relogin = "eq_int c (ERROR_CONNECT_TO_SERVER K) \<or> eq_int c (ERROR_UNAUTHORIZED_TO_SERVER K)"
  from do_call_returned [OF assms(1)] obtain hdrs where
    h: "session s = Some hdrs" "effective_method method \<in> {''POST'', ''PUT'', ''GET'', ''DELETE''}"
       "s1 = s\<lparr>wire := wire s @ [make_request s hdrs path data (effective_method method) (SOCKET_TIMEOUT K)]\<rparr>"
    by blast
  have a: "\<exists>hdrs. session s = Some hdrs \<and>
            wire s1 = wire s @ [make_request s hdrs path data (effective_method method) (SOCKET_TIMEOUT K)]"
    using h by simp
  have b: "\<not> ?relogin \<Longrightarrow> call net K li s path data method = (Inr r1, s1)"
    using assms by (simp add: call_def is_relogin_code_def)
  have c1: "\<And>e s2. ?relogin \<Longrightarrow> login net K li s1 = (Inl e, s2) \<Longrightarrow>
               call net K li s path data method = (Inl e, s2)"
    using assms by (simp add: call_def is_relogin_code_def)
  have c2: "\<And>dev s2. ?relogin \<Longrightarrow> login net K li s1 = (Inr dev, s2) \<Longrightarrow>
               call net K li s path data method = do_call net K s2 path data method (SOCKET_TIMEOUT K)"
    using assms by (simp add: call_def is_relogin_code_def)
  have c3: "\<And>dev s2. ?relogin \<Longrightarrow> login net K li s1 = (Inr dev, s2) \<Longrightarrow>
               (\<exists>hdrs2. session s2 = Some hdrs2 \<and>
                  call net K li s path data method =
                    (result_of K (net (wire s2)
                        (make_request s2 hdrs2 path data (effective_method method) (SOCKET_TIMEOUT K))),
                     s2\<lparr>wire := wire s2 @
                        [make_request s2 hdrs2 path data (effective_method method) (SOCKET_TIMEOUT K)]\<rparr>))"
  proof -
    fix dev s2
    assume r: "?relogin" and l: "login net K li s1 = (Inr dev, s2)"
    from l have "session s2 \<noteq> None"
      unfolding login_def by (rule login_loop_returned)
    then obtain hdrs2 where s2: "session s2 = Some hdrs2" by auto
    from do_call_sent [OF s2, of "method" net K path data "SOCKET_TIMEOUT K"] h(2) c2 [OF r l] s2
    show "\<exists>hdrs2. session s2 = Some hdrs2 \<and>
                  call net K li s path data method =
                    (result_of K (net (wire s2)
                        (make_request s2 hdrs2 path data (effective_method method) (SOCKET_TIMEOUT K))),
                     s2\<lparr>wire := wire s2 @
                        [make_request s2 hdrs2 path data (effective_method method) (SOCKET_TIMEOUT K)]\<rparr>)"
      by simp
  qed
  show ?thesis
    using a b c1 c2 c3 by blast
qed

lemmas session_run =
  call_def do_call_def login_def login_do_call login_request_def strip_newlines_def
  result_of_def http_ok_def is_http_error_def login_failed_def login_body_def envelope_def
  error_code_def login_accept_def init_http_head_def Let_def dict_set_def logout_def
  truthy_str_def effective_method_def make_request_def assert_rest_result_def
  logout_request_def fresh_headers_def is_relogin_code_def error_envelope_def

theorem call_relogin_once_witness:
  "fst (call net_reconnect K0 li0 s0 ''/filesystem'' None (Some ''GET'')) =
     Inr (envelope 0 [(''data'', JObj [(''ID'', JStr ''7'')])]) \<and>
   map req_url (wire (snd (call net_reconnect K0 li0 s0 ''/filesystem'' None (Some ''GET'')))) =
     [''http://a/21/filesystem'', ''http://a/xx/sessions'', ''http://a/22/filesystem''] \<and>
   fst (call net_unauthorized K0 li0 s0 ''/filesystem'' None (Some ''GET'')) =
     Inr (envelope (- 401) []) \<and>
   map req_url (wire (snd (call net_unauthorized K0 li0 s0 ''/filesystem'' None (Some ''GET'')))) =
     [''http://a/21/filesystem'', ''http://a/xx/sessions'', ''http://a/22/filesystem''] \<and>
   fst (call (net_code 5) K0 li0 s0 ''/filesystem'' None (Some ''GET'')) = Inr (envelope 5 []) \<and>
   map req_url (wire (snd (call (net_code 5) K0 li0 s0 ''/filesystem'' None (Some ''GET'')))) =
     [''http://a/21/filesystem'']"
proof -
  let ?r1 = "\<lparr>req_method = ''get'', req_url = ''http://a/21/filesystem'',
              req_headers = fresh_headers @ [(''iBaseToken'', JStr ''t0'')],
              req_data = None, req_timeout = 52\<rparr>"
  let ?s1 = "s0\<lparr>wire := [?r1]\<rparr>"
  let ?s2 = "\<lparr>url = Some ''http://a/22'',
              session = Some (fresh_headers @ [(''iBaseToken'', JStr ''t1'')]),
              wire = [?r1, login_request K0 li0 ''http://a/'']\<rparr>"
  have code: "error_code (envelope (- 401) []) = Inr (JInt (- 401))"
             "error_code (envelope 5 []) = Inr (JInt 5)"
             "error_code (error_envelope (JInt (- 403)) ''Connect server error'') = Inr (JInt (- 403))"
    by (simp_all add: envelope_def error_envelope_def error_code_def)
  have conn: "eq_int (JInt (- 403)) (ERROR_CONNECT_TO_SERVER K0) \<or>
              eq_int (JInt (- 403)) (ERROR_UNAUTHORIZED_TO_SERVER K0)"
    and unauth: "eq_int (JInt (- 401)) (ERROR_CONNECT_TO_SERVER K0) \<or>
                 eq_int (JInt (- 401)) (ERROR_UNAUTHORIZED_TO_SERVER K0)"
    and other: "\<not> eq_int (JInt 5) (ERROR_CONNECT_TO_SERVER K0) \<and>
                \<not> eq_int (JInt 5) (ERROR_UNAUTHORIZED_TO_SERVER K0)"
    by (simp_all add: K0_def)
  have f1: "do_call net_reconnect K0 s0 ''/filesystem'' None (Some ''GET'') (SOCKET_TIMEOUT K0) =
              (Inr (error_envelope (JInt (- 403)) ''Connect server error''), ?s1)"
    by (simp add: session_run s0_def K0_def net_reconnect_def)
  have l1: "login net_reconnect K0 li0 ?s1 = (Inr ''22'', ?s2)"
    by (simp add: session_run s0_def K0_def li0_def net_reconnect_def)
  have f2: "do_call net_unauthorized K0 s0 ''/filesystem'' None (Some ''GET'') (SOCKET_TIMEOUT K0) =
              (Inr (envelope (- 401) []), ?s1)"
    by (simp add: session_run s0_def K0_def net_unauthorized_def)
  have l2: "login net_unauthorized K0 li0 ?s1 = (Inr ''22'', ?s2)"
    by (simp add: session_run s0_def K0_def li0_def net_unauthorized_def)
  have f3: "do_call (net_code 5) K0 s0 ''/filesystem'' None (Some ''GET'') (SOCKET_TIMEOUT K0) =
              (Inr (envelope 5 []), ?s1)"
    by (simp add: session_run s0_def K0_def net_code_def)
  from call_relogin_once [OF f1 code(3), of li0, THEN conjunct2, THEN conjunct2, THEN mp, OF conn,
         THEN conjunct2, rule_format, OF l1, THEN conjunct1]
  have c1: "call net_reconnect K0 li0 s0 ''/filesystem'' None (Some ''GET'') =
             do_call net_reconnect K0 ?s2 ''/filesystem'' None (Some ''GET'') (SOCKET_TIMEOUT K0)" .
  from call_relogin_once [OF f2 code(1), of li0, THEN conjunct2, THEN conjunct2, THEN mp, OF unauth,
         THEN conjunct2, rule_format, OF l2, THEN conjunct1]
  have c2: "call net_unauthorized K0 li0 s0 ''/filesystem'' None (Some ''GET'') =
             do_call net_unauthorized K0 ?s2 ''/filesystem'' None (Some ''GET'') (SOCKET_TIMEOUT K0)" .
  from call_relogin_once [OF f3 code(2), of li0, THEN conjunct2, THEN conjunct1, THEN mp, OF other]
  have c3: "call (net_code 5) K0 li0 s0 ''/filesystem'' None (Some ''GET'') = (Inr (envelope 5 []), ?s1)" .
  show ?thesis
    unfolding c1 c2 c3
    by (simp add: session_run K0_def net_reconnect_def net_unauthorized_def)
qed

text \<open>
  Against C1 as stated: the first exchange gives the unauthorized code, \<^verbatim>\<open>login\<close> finds
  no candidate and raises, and \<^verbatim>\<open>call\<close> raises with it; the request is not sent a second
  time and no second result is returned.
\<close>

theorem call_raises_when_login_fails:
  "fst (do_call net_lost K0 s0 ''/filesystem'' None (Some ''GET'') (SOCKET_TIMEOUT K0)) =
     Inr (envelope (- 401) []) \<and>
   ERROR_UNAUTHORIZED_TO_SERVER K0 = - 401 \<and>
   fst (call net_lost K0 li0 s0 ''/filesystem'' None (Some ''GET'')) =
     Inl (InvalidShare [Txt ''All url login fail.'']) \<and>
   map req_url (wire (snd (call net_lost K0 li0 s0 ''/filesystem'' None (Some ''GET'')))) =
     [''http://a/21/filesystem'', ''http://a/xx/sessions'', ''http://b/xx/sessions'',
      ''http://c/xx/sessions'']"
  by (simp add: session_run s0_def K0_def li0_def net_lost_def)

lemma call_plain:
  assumes "session s = Some hdrs"
    and "effective_method m \<in> {''POST'', ''PUT'', ''GET'', ''DELETE''}"
    and "result_of K (net (wire s) (make_request s hdrs p d (effective_method m) (SOCKET_TIMEOUT K))) = Inr r"
    and "error_code r = Inr c" and "\<not> is_relogin_code K c"
  shows "call net K li s p d m =
           (Inr r, s\<lparr>wire := wire s @ [make_request s hdrs p d (effective_method m) (SOCKET_TIMEOUT K)]\<rparr>)"
  using assms by (simp add: call_def do_call_sent)

section \<open>Resource operations\<close>

text \<open>
  C2, as the code has it. Whenever \<^verbatim>\<open>call\<close> returns a result whose code can be read:
  \<^verbatim>\<open>delete_replication_pair\<close> returns for the replication-pair-not-exist code and for
  0, and raises \<open>InvalidShare\<close> for every other code; \<^verbatim>\<open>delete_hypermetro_pair\<close> does
  the same with the hypermetro-not-exist code; \<^verbatim>\<open>_delete_snapshot\<close> returns for 0 only
  and raises \<open>InvalidShare\<close> for every other code, the snapshot-not-found code with
  them. That code is tolerated by \<^verbatim>\<open>_check_snapshot_id_exist\<close>, which answers \<open>False\<close>
  for it.
\<close>

theorem delete_tolerates_missing_pairs:
  "(\<forall>result s1 c.
      call net K li s (''/REPLICATIONPAIR/'' @ pair_id) None (Some ''DELETE'') = (Inr result, s1) \<and>
      error_code result = Inr c \<longrightarrow>
        delete_replication_pair net K li s pair_id =
          (if eq_int c (ERROR_REPLICATION_PAIR_NOT_EXIST K) \<or> eq_int c 0 then (Inr (), s1)
           else (Inl (InvalidShare [Txt (''Failed to delete replication pair '' @ pair_id @ ''.''),
                                    Txt [CHR 0x0A], Txt ''result: '', Val result, Txt ''.'']), s1))) \<and>
   (\<forall>result s1 c.
      call net K li s (''/HyperMetroPair/'' @ pair_id) None (Some ''DELETE'') = (Inr result, s1) \<and>
      error_code result = Inr c \<longrightarrow>
        delete_hypermetro_pair net K li s pair_id =
          (if eq_int c (ERROR_HYPERMETRO_NOT_EXIST K) \<or> eq_int c 0 then (Inr (), s1)
           else (Inl (InvalidShare [Txt (''Delete HyperMetro pair '' @ pair_id @ '' error.''),
                                    Txt [CHR 0x0A], Txt ''result: '', Val result, Txt ''.'']), s1))) \<and>
   (\<forall>result s1 c.
      call net K li s (''/FSSNAPSHOT/'' @ snap_id)
        (Some (JObj [(''TYPE'', JStr ''48''), (''ID'', JStr snap_id)])) (Some ''DELETE'') = (Inr result, s1) \<and>
      error_code result = Inr c \<longrightarrow>
        delete_snapshot net K li s snap_id =
          (if eq_int c 0 then (Inr (), s1)
           else (Inl (InvalidShare [Txt ''Delete snapshot error.'',
                                    Txt [CHR 0x0A], Txt ''result: '', Val result, Txt ''.'']), s1))) \<and>
   (\<forall>info c. error_code info = Inr c \<and> eq_int c (MSG_SNAPSHOT_NOT_FOUND K) \<longrightarrow>
      check_snapshot_id_exist K info = Inr False)"
  by (simp add: delete_replication_pair_def delete_hypermetro_pair_def delete_snapshot_def
        check_snapshot_id_exist_def assert_rest_result_def)

lemma call_net_code:
  "c \<noteq> - 403 \<Longrightarrow> c \<noteq> - 401 \<Longrightarrow>
   call (net_code c) K0 li0 s0 p d (Some ''DELETE'') =
     (Inr (envelope c []),
      s0\<lparr>wire := [make_request s0 (fresh_headers @ [(''iBaseToken'', JStr ''t0'')]) p d ''DELETE'' 52]\<rparr>)"
  using call_plain [of s0 "fresh_headers @ [(''iBaseToken'', JStr ''t0'')]" "Some ''DELETE''" K0
          "net_code c" p d "envelope c []" "JInt c" li0]
  by (simp add: s0_def effective_method_def truthy_str_def net_code_def result_of_def http_ok_def
        is_http_error_def envelope_def error_code_def is_relogin_code_def K0_def)

theorem delete_tolerates_missing_pairs_witness:
  "fst (delete_replication_pair (net_code 1077937923) K0 li0 s0 ''12'') = Inr () \<and>
   fst (delete_hypermetro_pair (net_code 1077674242) K0 li0 s0 ''12'') = Inr () \<and>
   fst (delete_hypermetro_pair (net_code 1077937923) K0 li0 s0 ''12'') =
     Inl (InvalidShare [Txt ''Delete HyperMetro pair 12 error.'', Txt [CHR 0x0A], Txt ''result: '',
                        Val (envelope 1077937923 []), Txt ''.'']) \<and>
   fst (delete_snapshot (net_code 0) K0 li0 s0 ''5'') = Inr () \<and>
   check_snapshot_id_exist K0 (envelope 1073754118 []) = Inr False"
proof -
  have code: "\<And>c. error_code (envelope c []) = Inr (JInt c)"
    by (simp add: envelope_def error_code_def)
  note T = delete_tolerates_missing_pairs
  from T [of "net_code 1077937923" K0 li0 s0 "''12''", THEN conjunct1, rule_format,
          OF conjI, OF call_net_code code]
  have a: "fst (delete_replication_pair (net_code 1077937923) K0 li0 s0 ''12'') = Inr ()"
    by (simp add: K0_def)
  from T [of "net_code 1077674242" K0 li0 s0 "''12''", THEN conjunct2, THEN conjunct1, rule_format,
          OF conjI, OF call_net_code code]
  have b: "fst (delete_hypermetro_pair (net_code 1077674242) K0 li0 s0 ''12'') = Inr ()"
    by (simp add: K0_def)
  from T [of "net_code 1077937923" K0 li0 s0 "''12''", THEN conjunct2, THEN conjunct1, rule_format,
          OF conjI, OF call_net_code code]
  have c: "fst (delete_hypermetro_pair (net_code 1077937923) K0 li0 s0 ''12'') =
     Inl (InvalidShare [Txt ''Delete HyperMetro pair 12 error.'', Txt [CHR 0x0A], Txt ''result: '',
                        Val (envelope 1077937923 []), Txt ''.''])"
    by (simp add: K0_def)
  from T [of "net_code 0" K0 li0 s0 _ "''5''", THEN conjunct2, THEN conjunct2, THEN conjunct1,
          rule_format, OF conjI, OF call_net_code code]
  have d: "fst (delete_snapshot (net_code 0) K0 li0 s0 ''5'') = Inr ()"
    by simp
  from T [of _ K0 _ _ _ _, THEN conjunct2, THEN conjunct2, THEN conjunct2, rule_format,
          of "envelope 1073754118 []" "JInt 1073754118"]
  have e: "check_snapshot_id_exist K0 (envelope 1073754118 []) = Inr False"
    by (simp add: code K0_def)
  show ?thesis using a b c d e by simp
qed

text \<open>
  Against C2 as stated: the array answers the DELETE of a snapshot with the
  snapshot-not-found code, and \<^verbatim>\<open>_delete_snapshot\<close> raises.
\<close>

theorem delete_snapshot_raises_when_missing:
  "fst (call (net_code 1073754118) K0 li0 s0 ''/FSSNAPSHOT/5''
          (Some (JObj [(''TYPE'', JStr ''48''), (''ID'', JStr ''5'')])) (Some ''DELETE'')) =
     Inr (envelope 1073754118 []) \<and>
   eq_int (JInt 1073754118) (MSG_SNAPSHOT_NOT_FOUND K0) \<and>
   fst (delete_snapshot (net_code 1073754118) K0 li0 s0 ''5'') =
     Inl (InvalidShare [Txt ''Delete snapshot error.'', Txt [CHR 0x0A], Txt ''result: '',
                        Val (envelope 1073754118 []), Txt ''.''])"
proof -
  have c: "call (net_code 1073754118) K0 li0 s0 ''/FSSNAPSHOT/5''
             (Some (JObj [(''TYPE'', JStr ''48''), (''ID'', JStr ''5'')])) (Some ''DELETE'') =
           (Inr (envelope 1073754118 []),
            s0\<lparr>wire := [make_request s0 (fresh_headers @ [(''iBaseToken'', JStr ''t0'')]) ''/FSSNAPSHOT/5''
                (Some (JObj [(''TYPE'', JStr ''48''), (''ID'', JStr ''5'')])) ''DELETE'' 52]\<rparr>)"
    by (rule call_net_code) simp_all
  have k: "MSG_SNAPSHOT_NOT_FOUND K0 = 1073754118"
    by (simp add: K0_def)
  show ?thesis
    by (simp add: delete_snapshot_def c k assert_rest_result_def envelope_def error_code_def)
qed

lemma send_rest_result:
  assumes "call net K li s ''/CIFS_SHARE_AUTH_CLIENT''
             (Some (cifs_access_body share_id access_level name dt vstore)) (Some ''POST'') = (Inr r, s1)"
    and "error_code r = Inr c"
  shows "send_rest net K li s share_id access_level name dt vstore =
           (if eq_int c 0 then (Inr True, s1)
            else if eq_int c (ERROR_USER_OR_GROUP_NOT_EXIST K) then (Inr False, s1)
            else (Inl (InvalidShare [Txt ''Allow access error.'', Txt [CHR 0x0A], Txt ''result: '',
                                     Val r, Txt ''.'']), s1))"
  using assms
  by (simp add: send_rest_def cifs_access_body_def Let_def assert_rest_result_def)

text \<open>
  C4, as the code has it. \<^verbatim>\<open>_allow_cifs_access_rest\<close> uses one domain type for a name:
  AD (\<^verbatim>\<open>'0'\<close>) when the name holds a backslash, local (\<^verbatim>\<open>'2'\<close>) when it does not; the
  other domain type is never tried. It first posts the grant for the name itself. Code
  0 ends it with success. Any code other than 0 and user-or-group-not-exist raises
  \<open>InvalidShare\<close> with the result at once. The user-or-group-not-exist code, and only
  it, leads to one second post, for the name after \<^verbatim>\<open>@\<close> with the same domain type:
  code 0 is success, user-or-group-not-exist again raises \<open>InvalidShare\<close> with
  \<^verbatim>\<open>Allow access error.\<close>, any other code raises \<open>InvalidShare\<close> with the result.
\<close>

theorem allow_cifs_user_then_group:
  "\<forall>r1 s1 c1.
     call net K li s ''/CIFS_SHARE_AUTH_CLIENT''
       (Some (cifs_access_body share_id access_level access_to (domain_type_of access_to) vstore))
       (Some ''POST'') = (Inr r1, s1) \<and>
     error_code r1 = Inr c1 \<longrightarrow>
       (if eq_int c1 0 then
          allow_cifs_access_rest net K li s share_id access_to access_level vstore = (Inr (), s1)
        else if \<not> eq_int c1 (ERROR_USER_OR_GROUP_NOT_EXIST K) then
          allow_cifs_access_rest net K li s share_id access_to access_level vstore =
            (Inl (InvalidShare [Txt ''Allow access error.'', Txt [CHR 0x0A], Txt ''result: '',
                                Val r1, Txt ''.'']), s1)
        else
          (\<forall>r2 s2 c2.
             call net K li s1 ''/CIFS_SHARE_AUTH_CLIENT''
               (Some (cifs_access_body share_id access_level (''@'' @ access_to)
                        (domain_type_of access_to) vstore))
               (Some ''POST'') = (Inr r2, s2) \<and>
             error_code r2 = Inr c2 \<longrightarrow>
               allow_cifs_access_rest net K li s share_id access_to access_level vstore =
                 (if eq_int c2 0 then (Inr (), s2)
                  else if eq_int c2 (ERROR_USER_OR_GROUP_NOT_EXIST K)
                  then (Inl (InvalidShare [Txt ''Allow access error.'']), s2)
                  else (Inl (InvalidShare [Txt ''Allow access error.'', Txt [CHR 0x0A],
                                           Txt ''result: '', Val r2, Txt ''.'']), s2))))"
proof (intro allI impI)
  fix r1 s1 c1
  assume h: "call net K li s ''/CIFS_SHARE_AUTH_CLIENT''
       (Some (cifs_access_body share_id access_level access_to (domain_type_of access_to) vstore))
       (Some ''POST'') = (Inr r1, s1) \<and> error_code r1 = Inr c1"
  have unfold: "allow_cifs_access_rest net K li s share_id access_to access_level vstore =
          user_then_group net K li s share_id access_level access_to (domain_type_of access_to) vstore"
    by (simp add: allow_cifs_access_rest_def domain_type_of_def)
  note first = send_rest_result [OF h [THEN conjunct1] h [THEN conjunct2]]
  show "if eq_int c1 0 then
          allow_cifs_access_rest net K li s share_id access_to access_level vstore = (Inr (), s1)
        else if \<not> eq_int c1 (ERROR_USER_OR_GROUP_NOT_EXIST K) then
          allow_cifs_access_rest net K li s share_id access_to access_level vstore =
            (Inl (InvalidShare [Txt ''Allow access error.'', Txt [CHR 0x0A], Txt ''result: '',
                                Val r1, Txt ''.'']), s1)
        else
          (\<forall>r2 s2 c2.
             call net K li s1 ''/CIFS_SHARE_AUTH_CLIENT''
               (Some (cifs_access_body share_id access_level (''@'' @ access_to)
                        (domain_type_of access_to) vstore))
               (Some ''POST'') = (Inr r2, s2) \<and>
             error_code r2 = Inr c2 \<longrightarrow>
               allow_cifs_access_rest net K li s share_id access_to access_level vstore =
                 (if eq_int c2 0 then (Inr (), s2)
                  else if eq_int c2 (ERROR_USER_OR_GROUP_NOT_EXIST K)
                  then (Inl (InvalidShare [Txt ''Allow access error.'']), s2)
                  else (Inl (InvalidShare [Txt ''Allow access error.'', Txt [CHR 0x0A],
                                           Txt ''result: '', Val r2, Txt ''.'']), s2)))"
  proof (cases "eq_int c1 0")
    case True
    then show ?thesis by (simp add: unfold user_then_group_def first)
  next
    case False
    show ?thesis
    proof (cases "eq_int c1 (ERROR_USER_OR_GROUP_NOT_EXIST K)")
      case ne: False
      with False show ?thesis by (simp add: unfold user_then_group_def first)
    next
      case ne: True
      have "\<And>r2 s2 c2.
             call net K li s1 ''/CIFS_SHARE_AUTH_CLIENT''
               (Some (cifs_access_body share_id access_level (''@'' @ access_to)
                        (domain_type_of access_to) vstore))
               (Some ''POST'') = (Inr r2, s2) \<and>
             error_code r2 = Inr c2 \<Longrightarrow>
               allow_cifs_access_rest net K li s share_id access_to access_level vstore =
                 (if eq_int c2 0 then (Inr (), s2)
                  else if eq_int c2 (ERROR_USER_OR_GROUP_NOT_EXIST K)
                  then (Inl (InvalidShare [Txt ''Allow access error.'']), s2)
                  else (Inl (InvalidShare [Txt ''Allow access error.'', Txt [CHR 0x0A],
                                           Txt ''result: '', Val r2, Txt ''.'']), s2))"
      proof -
        fix r2 s2 c2
        assume g: "call net K li s1 ''/CIFS_SHARE_AUTH_CLIENT''
               (Some (cifs_access_body share_id access_level (''@'' @ access_to)
                        (domain_type_of access_to) vstore))
               (Some ''POST'') = (Inr r2, s2) \<and> error_code r2 = Inr c2"
        note second = send_rest_result [OF g [THEN conjunct1] g [THEN conjunct2]]
        show "allow_cifs_access_rest net K li s share_id access_to access_level vstore =
                 (if eq_int c2 0 then (Inr (), s2)
                  else if eq_int c2 (ERROR_USER_OR_GROUP_NOT_EXIST K)
                  then (Inl (InvalidShare [Txt ''Allow access error.'']), s2)
                  else (Inl (InvalidShare [Txt ''Allow access error.'', Txt [CHR 0x0A],
                                           Txt ''result: '', Val r2, Txt ''.'']), s2))"
          using False ne second by (simp add: unfold user_then_group_def first)
      qed
      with False ne show ?thesis by simp
    qed
  qed
qed

lemma envelope_code: "error_code (envelope c extra) = Inr (JInt c)"
  by (simp add: envelope_def error_code_def)

lemma call_s0_post:
  assumes "result_of K0 (net (w :: request list)
              (make_request (s0\<lparr>wire := w\<rparr>) (fresh_headers @ [(''iBaseToken'', JStr ''t0'')]) p d ''POST'' 52))
           = Inr (envelope c extra)"
    and "c \<noteq> - 403" and "c \<noteq> - 401"
  shows "call net K0 li0 (s0\<lparr>wire := w\<rparr>) p d (Some ''POST'') =
           (Inr (envelope c extra),
            s0\<lparr>wire := w @ [make_request (s0\<lparr>wire := w\<rparr>)
                               (fresh_headers @ [(''iBaseToken'', JStr ''t0'')]) p d ''POST'' 52]\<rparr>)"
  using call_plain [of "s0\<lparr>wire := w\<rparr>" "fresh_headers @ [(''iBaseToken'', JStr ''t0'')]" "Some ''POST''"
          K0 net p d "envelope c extra" "JInt c" li0] assms
  by (simp add: s0_def effective_method_def truthy_str_def envelope_code is_relogin_code_def K0_def)

theorem allow_cifs_user_then_group_witness:
  "fst (allow_cifs_access_rest (net_then 1077939723 0) K0 li0 (s0\<lparr>wire := []\<rparr>) ''9'' ''alice'' ''rw'' None)
     = Inr () \<and>
   map req_data (wire (snd (allow_cifs_access_rest (net_then 1077939723 0) K0 li0 (s0\<lparr>wire := []\<rparr>)
                              ''9'' ''alice'' ''rw'' None))) =
     [Some (cifs_access_body ''9'' ''rw'' ''alice'' ''2'' None),
      Some (cifs_access_body ''9'' ''rw'' ''@alice'' ''2'' None)]"
proof -
  let ?net = "net_then 1077939723 0"
  let ?h = "fresh_headers @ [(''iBaseToken'', JStr ''t0'')]"
  let ?b1 = "cifs_access_body ''9'' ''rw'' ''alice'' (domain_type_of ''alice'') None"
  let ?b2 = "cifs_access_body ''9'' ''rw'' (''@'' @ ''alice'') (domain_type_of ''alice'') None"
  let ?q1 = "make_request (s0\<lparr>wire := []\<rparr>) ?h ''/CIFS_SHARE_AUTH_CLIENT'' (Some ?b1) ''POST'' 52"
  let ?q2 = "make_request (s0\<lparr>wire := [?q1]\<rparr>) ?h ''/CIFS_SHARE_AUTH_CLIENT'' (Some ?b2) ''POST'' 52"
  have c1: "call ?net K0 li0 (s0\<lparr>wire := []\<rparr>) ''/CIFS_SHARE_AUTH_CLIENT'' (Some ?b1) (Some ''POST'') =
              (Inr (envelope 1077939723 []), s0\<lparr>wire := [] @ [?q1]\<rparr>)"
    by (rule call_s0_post) (simp_all add: net_then_def result_of_def http_ok_def is_http_error_def)
  have c2: "call ?net K0 li0 (s0\<lparr>wire := [] @ [?q1]\<rparr>) ''/CIFS_SHARE_AUTH_CLIENT'' (Some ?b2) (Some ''POST'') =
              (Inr (envelope 0 []), s0\<lparr>wire := ([] @ [?q1]) @ [?q2]\<rparr>)"
    using call_s0_post [of ?net "[] @ [?q1]" "''/CIFS_SHARE_AUTH_CLIENT''" "Some ?b2" 0 "[]"]
    by (simp add: net_then_def result_of_def http_ok_def is_http_error_def)
  from allow_cifs_user_then_group [rule_format, OF conjI [OF c1 envelope_code]]
  have "\<forall>r2 s2 c2.
          call ?net K0 li0 (s0\<lparr>wire := [] @ [?q1]\<rparr>) ''/CIFS_SHARE_AUTH_CLIENT'' (Some ?b2) (Some ''POST'')
            = (Inr r2, s2) \<and> error_code r2 = Inr c2 \<longrightarrow>
          allow_cifs_access_rest ?net K0 li0 (s0\<lparr>wire := []\<rparr>) ''9'' ''alice'' ''rw'' None =
            (if eq_int c2 0 then (Inr (), s2)
             else if eq_int c2 (ERROR_USER_OR_GROUP_NOT_EXIST K0)
             then (Inl (InvalidShare [Txt ''Allow access error.'']), s2)
             else (Inl (InvalidShare [Txt ''Allow access error.'', Txt [CHR 0x0A],
                                      Txt ''result: '', Val r2, Txt ''.'']), s2))"
    by (simp add: K0_def)
  from this [rule_format, OF conjI [OF c2 envelope_code]]
  have "allow_cifs_access_rest ?net K0 li0 (s0\<lparr>wire := []\<rparr>) ''9'' ''alice'' ''rw'' None =
          (Inr (), s0\<lparr>wire := ([] @ [?q1]) @ [?q2]\<rparr>)"
    by simp
  then show ?thesis
    by (simp add: make_request_def domain_type_of_def)
qed

text \<open>
  Against C4 as stated: for a name with a backslash the array answers every grant with
  the user-or-group-not-exist code. Two requests are sent, both with the AD domain
  type, and the error is raised; the local domain type is not tried.
\<close>

theorem allow_cifs_never_tries_other_domain:
  "fst (allow_cifs_access_rest (net_code 1077939723) K0 li0 s0 ''9''
          (''DOM'' @ [CHR 0x5C] @ ''bob'') ''rw'' None)
     = Inl (InvalidShare [Txt ''Allow access error.'']) \<and>
   map req_data (wire (snd (allow_cifs_access_rest (net_code 1077939723) K0 li0 s0 ''9''
                              (''DOM'' @ [CHR 0x5C] @ ''bob'') ''rw'' None))) =
     [Some (cifs_access_body ''9'' ''rw'' (''DOM'' @ [CHR 0x5C] @ ''bob'') ''0'' None),
      Some (cifs_access_body ''9'' ''rw'' (''@DOM'' @ [CHR 0x5C] @ ''bob'') ''0'' None)]"
  by (simp add: allow_cifs_access_rest_def user_then_group_def send_rest_def session_run
        s0_def K0_def net_code_def cifs_access_body_def)

lemma split_on_no_sep: "c \<notin> set w \<Longrightarrow> split_on c w = [w]"
  by (induction w) auto

lemma split_on_append_sep: "c \<notin> set w \<Longrightarrow> split_on c (w @ c # rest) = w # split_on c rest"
  by (induction w) (auto simp: split_on_nonempty split: list.splits)

lemma split_on_join:
  "ws \<noteq> [] \<Longrightarrow> \<forall>w \<in> set ws. c \<notin> set w \<Longrightarrow> split_on c (join_with c ws) = ws"
proof (induction c ws rule: join_with.induct)
  case (1 c)
  then show ?case by simp
next
  case (2 c w)
  then show ?case by (simp add: split_on_no_sep)
next
  case (3 c w v ws)
  then show ?case by (simp add: split_on_append_sep)
qed

lemma strip_ends_wrapped: "strip_ends (a # t @ [b]) = t"
  by (simp add: strip_ends_def)

lemma decode_encode:
  assumes "\<forall>i \<in> set ids. i \<noteq> [] \<and> CHR '','' \<notin> set i"
  shows "filter (\<lambda>x. x \<noteq> []) (map strip_ends (split_on CHR '','' (strip_ends (encode_fs_list ids)))) = ids"
proof (cases "ids = []")
  case True
  then show ?thesis
    by (simp add: encode_fs_list_def quoted_def strip_ends_def)
next
  case False
  have "\<forall>w \<in> set (map quoted ids). CHR '','' \<notin> set w"
    using assms by (auto simp: quoted_def)
  then have "split_on CHR '','' (join_with CHR '','' (map quoted ids)) = map quoted ids"
    using False by (intro split_on_join) simp_all
  moreover have "strip_ends (encode_fs_list ids) = join_with CHR '','' (map quoted ids)"
    using False strip_ends_wrapped [of "CHR ''[''" "join_with CHR '','' (map quoted ids)" "CHR '']''"]
    by (simp add: encode_fs_list_def)
  moreover have "map strip_ends (map quoted ids) = ids"
    by (induction ids) (simp_all add: quoted_def strip_ends_def)
  moreover have "filter (\<lambda>x. x \<noteq> []) ids = ids"
    using assms by (induction ids) auto
  ultimately show ?thesis by simp
qed

lemma new_fs_list_encoded:
  assumes "\<forall>i \<in> set ids. i \<noteq> [] \<and> CHR '','' \<notin> set i"
  shows "new_fs_list fs_id (encode_fs_list ids) = filter (\<lambda>x. x \<noteq> fs_id) ids @ [fs_id]"
proof -
  have f: "filter (\<lambda>x. x \<noteq> [] \<and> x \<noteq> fs_id) xs = filter (\<lambda>x. x \<noteq> fs_id) (filter (\<lambda>x. x \<noteq> []) xs)"
    for xs :: "string list"
    by (induction xs) auto
  show ?thesis
    unfolding new_fs_list_def f decode_encode [OF assms] by simp
qed

lemma new_fs_list_once: "count_list (new_fs_list fs_id fs_list) fs_id = 1"
proof -
  have "count_list (filter (\<lambda>x. x \<noteq> [] \<and> x \<noteq> fs_id) xs) fs_id = 0" for xs :: "string list"
    by (induction xs) auto
  then show ?thesis by (simp add: new_fs_list_def)
qed

lemma do_call_wire: "\<exists>more. wire (snd (do_call net K s p d m t)) = wire s @ more"
  by (simp add: do_call_def Let_def split: option.splits)

lemma logout_wire: "\<exists>more. wire (snd (logout net K s)) = wire s @ more"
  using do_call_wire [of net K s "''/sessions''" None "Some ''DELETE''" "SOCKET_TIMEOUT K"]
  by (simp add: logout_def snd_case_result split: option.splits)

lemma login_accept_wire: "\<exists>more. wire (snd (login_accept net K u r s)) = wire s @ more"
proof -
  have "\<exists>more. wire (snd (logout net K (s\<lparr>url := a, session := b\<rparr>))) = wire s @ more" for a b
    using logout_wire [of net K "s\<lparr>url := a, session := b\<rparr>"] by simp
  then show ?thesis
    by (simp add: login_accept_def Let_def snd_case_result split: sum.splits json.splits option.splits)
qed

lemma login_loop_wire: "\<exists>more. wire (snd (login_loop net K li urls s)) = wire s @ more"
proof (induction urls arbitrary: s)
  case Nil
  then show ?case by simp
next
  case (Cons v urls)
  let ?s1 = "(init_http_head s)\<lparr>wire := wire s @ [login_request K li v]\<rparr>"
  from Cons.IH [of ?s1] obtain m1 where m1: "wire (snd (login_loop net K li urls ?s1)) = wire ?s1 @ m1"
    by blast
  from login_accept_wire [of net K v _ ?s1] have
    m2: "\<And>r. \<exists>more. wire (snd (login_accept net K v r ?s1)) = wire s @ more"
    by (metis append.assoc helper.select_convs(3) helper.surjective helper.update_convs(3))
  show ?case
    using m1 m2 by (auto simp: login_do_call split: sum.splits bool.splits)
qed

lemma call_wire_first:
  assumes "session s = Some hdrs"
    and "effective_method m \<in> {''POST'', ''PUT'', ''GET'', ''DELETE''}"
  shows "\<exists>more. wire (snd (call net K li s p d m)) =
           wire s @ make_request s hdrs p d (effective_method m) (SOCKET_TIMEOUT K) # more"
proof -
  let ?q = "make_request s hdrs p d (effective_method m) (SOCKET_TIMEOUT K)"
  let ?s1 = "s\<lparr>wire := wire s @ [?q]\<rparr>"
  have first: "do_call net K s p d m (SOCKET_TIMEOUT K) = (result_of K (net (wire s) ?q), ?s1)"
    using assms by (rule do_call_sent)
  obtain m1 where m1: "wire (snd (login net K li ?s1)) = wire ?s1 @ m1"
    using login_loop_wire [of net K li _ ?s1] unfolding login_def by blast
  have m2: "\<exists>more. wire (snd (do_call net K (snd (login net K li ?s1)) p d m (SOCKET_TIMEOUT K))) =
              wire s @ ?q # more"
    using do_call_wire [of net K "snd (login net K li ?s1)" p d m "SOCKET_TIMEOUT K"] m1 by auto
  show ?thesis
    unfolding call_def first
    using m1 m2
    by (cases "login net K li ?s1") (auto split: sum.splits)
qed

lemma eq_str_iff: "eq_str v t \<longleftrightarrow> v = JStr t"
  by (cases v) auto

lemma qos_usable_true:
  assumes "qos_usable K item = Inr True"
  shows "\<exists>f name. getitem item ''FSLIST'' = Inr (JStr f) \<and>
           getitem item ''RUNNINGSTATUS'' = Inr (JStr (STATUS_QOS_ACTIVE K)) \<and>
           int (length (split_on CHR '','' f)) < MAX_FS_NUM_IN_QOS K \<and>
           getitem item ''NAME'' = Inr (JStr name) \<and>
           take (length (QOS_NAME_PREFIX K)) name = QOS_NAME_PREFIX K \<and>
           getitem item ''LUNLIST'' = Inr (JStr (''['' @ [CHR 0x22, CHR 0x22] @ '']''))"
  using assms
  by (auto simp: qos_usable_def Let_def eq_str_iff split: sum.splits json.splits if_splits)

lemma qos_loop_selected:
  "qos_loop K temp_qos items = Inr (qos_id, fs_list) \<Longrightarrow>
     (qos_id = JNull \<and> fs_list = JList []) \<or>
     (\<exists>item \<in> set items. qos_usable K item = Inr True \<and>
        getitem item ''ID'' = Inr qos_id \<and> getitem item ''FSLIST'' = Inr fs_list)"
proof (induction items)
  case Nil
  then show ?case by simp
next
  case (Cons item items)
  then show ?case
    by (auto split: sum.splits bool.splits)
qed

lemma length_split_on: "length (split_on c t) = Suc (count_list t c)"
  by (induction t) (auto split: list.splits simp: split_on_nonempty)

lemma count_join:
  "ws \<noteq> [] \<Longrightarrow> \<forall>w \<in> set ws. c \<notin> set w \<Longrightarrow> count_list (join_with c ws) c = length ws - 1"
proof (induction c ws rule: join_with.induct)
  case (1 c)
  then show ?case by simp
next
  case (2 c w)
  then show ?case by (simp add: count_list_0_iff)
next
  case (3 c w v ws)
  then show ?case by (simp add: count_list_0_iff)
qed

lemma pieces_encoded:
  assumes "\<forall>i \<in> set ids. i \<noteq> [] \<and> CHR '','' \<notin> set i"
  shows "length (split_on CHR '','' (encode_fs_list ids)) = max 1 (length ids)"
proof (cases "ids = []")
  case True
  then show ?thesis by (simp add: encode_fs_list_def quoted_def)
next
  case False
  have "\<forall>w \<in> set (map quoted ids). CHR '','' \<notin> set w"
    using assms by (auto simp: quoted_def)
  then have "count_list (join_with CHR '','' (map quoted ids)) CHR '','' = length ids - 1"
    using False count_join [of "map quoted ids" "CHR '',''"] by simp
  moreover have "count_list (encode_fs_list ids) CHR '','' =
                   count_list (join_with CHR '','' (map quoted ids)) CHR '',''"
    using False by (simp add: encode_fs_list_def)
  ultimately have "length (split_on CHR '','' (encode_fs_list ids)) = Suc (length ids - 1)"
    by (simp only: length_split_on)
  then show ?thesis
    using False by (cases ids) simp_all
qed

lemma find_available_qos_selected:
  assumes "find_available_qos net K li s qos = (Inr (qos_id, fs_list), s1)"
  shows "(qos_id = JNull \<and> fs_list = JList []) \<or>
         (\<exists>result d items item.
            get_qos net K li s = (Inr result, s1) \<and> getitem result ''data'' = Inr d \<and>
            py_iter d = Inr items \<and> item \<in> set items \<and> qos_usable K item = Inr True \<and>
            getitem item ''ID'' = Inr qos_id \<and> getitem item ''FSLIST'' = Inr fs_list)"
proof (cases "get_qos net K li s")
  case (Pair a s1')
  show ?thesis
  proof (cases a)
    case (Inl e)
    with Pair assms show ?thesis by (simp add: find_available_qos_def)
  next
    case (Inr result)
    with Pair assms have s1: "s1' = s1"
      by (auto simp: find_available_qos_def Let_def split: sum.splits bool.splits)
    show ?thesis
    proof (cases "qos_id = JNull \<and> fs_list = JList []")
      case True
      then show ?thesis by simp
    next
      case False
      with Pair Inr assms obtain d items temp where
        d: "getitem result ''data'' = Inr d" "py_iter d = Inr items"
           "qos_loop K temp items = Inr (qos_id, fs_list)"
        by (auto simp: find_available_qos_def Let_def split: sum.splits bool.splits)
      from qos_loop_selected [OF d(3)] False obtain item where
        "item \<in> set items" "qos_usable K item = Inr True"
        "getitem item ''ID'' = Inr qos_id" "getitem item ''FSLIST'' = Inr fs_list"
        by blast
      with d Pair Inr s1 show ?thesis by blast
    qed
  qed
qed

text \<open>
  C8, as the code has it. A policy that \<^verbatim>\<open>find_available_qos\<close> returns is an item of
  the array's list whose running status is the active one, whose \<^verbatim>\<open>FSLIST\<close> string has
  fewer comma-separated pieces than the maximum (for the encoding of a list of ids the
  pieces are the ids, one piece for the empty list), whose name starts with the prefix,
  and whose \<^verbatim>\<open>LUNLIST\<close> is the encoding of the empty list. \<^verbatim>\<open>add_share_to_qos\<close> parses
  the \<^verbatim>\<open>FSLIST\<close> string, drops the empty pieces and the id to add, appends that id (so
  it occurs exactly once), and sends the ids as a list, the \<^verbatim>\<open>FSLIST\<close> field of the body
  of a PUT to \<^verbatim>\<open>/ioclass/<id>\<close>: the list is not put back into a string.
\<close>

theorem qos_reuse_and_add:
  "(\<forall>qos_id fs_list s1.
      find_available_qos net K li s qos = (Inr (qos_id, fs_list), s1) \<longrightarrow>
        (qos_id = JNull \<and> fs_list = JList []) \<or>
        (\<exists>result d items item f name.
           get_qos net K li s = (Inr result, s1) \<and> getitem result ''data'' = Inr d \<and>
           py_iter d = Inr items \<and> item \<in> set items \<and>
           getitem item ''ID'' = Inr qos_id \<and> fs_list = JStr f \<and>
           getitem item ''FSLIST'' = Inr (JStr f) \<and>
           getitem item ''RUNNINGSTATUS'' = Inr (JStr (STATUS_QOS_ACTIVE K)) \<and>
           int (length (split_on CHR '','' f)) < MAX_FS_NUM_IN_QOS K \<and>
           getitem item ''NAME'' = Inr (JStr name) \<and>
           take (length (QOS_NAME_PREFIX K)) name = QOS_NAME_PREFIX K \<and>
           getitem item ''LUNLIST'' = Inr (JStr (''['' @ [CHR 0x22, CHR 0x22] @ '']'')))) \<and>
   (\<forall>ids. (\<forall>i \<in> set ids. i \<noteq> [] \<and> CHR '','' \<notin> set i) \<longrightarrow>
      length (split_on CHR '','' (encode_fs_list ids)) = max 1 (length ids) \<and>
      new_fs_list fs_id (encode_fs_list ids) = filter (\<lambda>x. x \<noteq> fs_id) ids @ [fs_id]) \<and>
   count_list (new_fs_list fs_id fs_list0) fs_id = 1 \<and>
   (\<forall>hdrs. session s = Some hdrs \<longrightarrow>
      (\<exists>more. wire (snd (add_share_to_qos net K li s qid fs_id fs_list0)) =
         wire s @
         \<lparr>req_method = ''put'',
          req_url = (if truthy_str (url s) then the (url s) else []) @ ''/ioclass/'' @ qid,
          req_headers = hdrs,
          req_data = Some (JObj [(''FSLIST'', JList (map JStr (new_fs_list fs_id fs_list0))),
                                 (''TYPE'', JInt 230), (''ID'', JStr qid)]),
          req_timeout = SOCKET_TIMEOUT K\<rparr> # more))"
proof (intro conjI allI impI)
  fix qos_id fs_list s1
  assume a: "find_available_qos net K li s qos = (Inr (qos_id, fs_list), s1)"
  from find_available_qos_selected [OF a] qos_usable_true
  show "(qos_id = JNull \<and> fs_list = JList []) \<or>
        (\<exists>result d items item f name.
           get_qos net K li s = (Inr result, s1) \<and> getitem result ''data'' = Inr d \<and>
           py_iter d = Inr items \<and> item \<in> set items \<and>
           getitem item ''ID'' = Inr qos_id \<and> fs_list = JStr f \<and>
           getitem item ''FSLIST'' = Inr (JStr f) \<and>
           getitem item ''RUNNINGSTATUS'' = Inr (JStr (STATUS_QOS_ACTIVE K)) \<and>
           int (length (split_on CHR '','' f)) < MAX_FS_NUM_IN_QOS K \<and>
           getitem item ''NAME'' = Inr (JStr name) \<and>
           take (length (QOS_NAME_PREFIX K)) name = QOS_NAME_PREFIX K \<and>
           getitem item ''LUNLIST'' = Inr (JStr (''['' @ [CHR 0x22, CHR 0x22] @ '']'')))"
  proof (elim disjE exE conjE)
    assume "qos_id = JNull" "fs_list = JList []"
    then show ?thesis by simp
  next
    fix result d items item
    assume b: "get_qos net K li s = (Inr result, s1)" "getitem result ''data'' = Inr d"
      "py_iter d = Inr items" "item \<in> set items" "qos_usable K item = Inr True"
      "getitem item ''ID'' = Inr qos_id" "getitem item ''FSLIST'' = Inr fs_list"
    from qos_usable_true [OF b(5)] obtain f name where
      c: "getitem item ''FSLIST'' = Inr (JStr f)"
         "getitem item ''RUNNINGSTATUS'' = Inr (JStr (STATUS_QOS_ACTIVE K))"
         "int (length (split_on CHR '','' f)) < MAX_FS_NUM_IN_QOS K"
         "getitem item ''NAME'' = Inr (JStr name)"
         "take (length (QOS_NAME_PREFIX K)) name = QOS_NAME_PREFIX K"
         "getitem item ''LUNLIST'' = Inr (JStr (''['' @ [CHR 0x22, CHR 0x22] @ '']''))"
      by blast
    from b(7) c(1) have "fs_list = JStr f" by simp
    with b c show ?thesis by blast
  qed
next
  fix ids
  assume "\<forall>i \<in> set ids. i \<noteq> [] \<and> CHR '','' \<notin> set i"
  then show "length (split_on CHR '','' (encode_fs_list ids)) = max 1 (length ids)"
    and "new_fs_list fs_id (encode_fs_list ids) = filter (\<lambda>x. x \<noteq> fs_id) ids @ [fs_id]"
    by (rule pieces_encoded, rule new_fs_list_encoded)
next
  show "count_list (new_fs_list fs_id fs_list0) fs_id = 1"
    by (rule new_fs_list_once)
next
  fix hdrs
  assume h: "session s = Some hdrs"
  let ?d = "Some (JObj [(''FSLIST'', JList (map JStr (new_fs_list fs_id fs_list0))),
                        (''TYPE'', JInt 230), (''ID'', JStr qid)])"
  from call_wire_first [OF h, of "Some ''PUT''" net K li "''/ioclass/'' @ qid" ?d]
  obtain more where "wire (snd (call net K li s (''/ioclass/'' @ qid) ?d (Some ''PUT''))) =
      wire s @ make_request s hdrs (''/ioclass/'' @ qid) ?d (effective_method (Some ''PUT'')) (SOCKET_TIMEOUT K) # more"
    by (auto simp: effective_method_def truthy_str_def)
  then show "\<exists>more. wire (snd (add_share_to_qos net K li s qid fs_id fs_list0)) =
         wire s @
         \<lparr>req_method = ''put'',
          req_url = (if truthy_str (url s) then the (url s) else []) @ ''/ioclass/'' @ qid,
          req_headers = hdrs,
          req_data = Some (JObj [(''FSLIST'', JList (map JStr (new_fs_list fs_id fs_list0))),
                                 (''TYPE'', JInt 230), (''ID'', JStr qid)]),
          req_timeout = SOCKET_TIMEOUT K\<rparr> # more"
    by (simp add: add_share_to_qos_def snd_case_result make_request_def effective_method_def
          truthy_str_def)
qed

lemma qos_sample_run:
  "fst (find_available_qos net_qos K0 li0 s0 [(''MAXIOPS'', ''100'')]) =
     Inr (JStr ''2'', JStr (encode_fs_list [''10'', ''11'']))"
  by code_simp

theorem qos_reuse_and_add_witness:
  "fst (find_available_qos net_qos K0 li0 s0 [(''MAXIOPS'', ''100'')]) =
     Inr (JStr ''2'', JStr (encode_fs_list [''10'', ''11''])) \<and>
   length (split_on CHR '','' (encode_fs_list [''10'', ''11''])) = 2 \<and>
   new_fs_list ''12'' (encode_fs_list [''10'', ''11'']) = [''10'', ''11'', ''12''] \<and>
   new_fs_list ''10'' (encode_fs_list [''10'', ''11'']) = [''11'', ''10''] \<and>
   new_fs_list ''12'' (encode_fs_list []) = [''12'']"
  using qos_reuse_and_add [of net_qos K0 li0 s0 "[(''MAXIOPS'', ''100'')]" "''12''" "[]" "[]",
          THEN conjunct2, THEN conjunct1, THEN spec, of "[''10'', ''11'']"]
        qos_reuse_and_add [of net_qos K0 li0 s0 "[(''MAXIOPS'', ''100'')]" "''10''" "[]" "[]",
          THEN conjunct2, THEN conjunct1, THEN spec, of "[''10'', ''11'']"]
        qos_reuse_and_add [of net_qos K0 li0 s0 "[(''MAXIOPS'', ''100'')]" "''12''" "[]" "[]",
          THEN conjunct2, THEN conjunct1, THEN spec, of "[]"]
        qos_sample_run
  by simp

text \<open>
  Against C8 as stated: the update that adds filesystem \<^verbatim>\<open>12\<close> to a policy holding
  \<^verbatim>\<open>10\<close> and \<^verbatim>\<open>11\<close> carries the three ids as a list, not as their string encoding.
\<close>

theorem add_share_to_qos_sends_list:
  "map req_data (wire (snd (add_share_to_qos (net_code 0) K0 li0 s0 ''2'' ''12''
                              (encode_fs_list [''10'', ''11''])))) =
     [Some (JObj [(''FSLIST'', JList [JStr ''10'', JStr ''11'', JStr ''12'']),
                  (''TYPE'', JInt 230), (''ID'', JStr ''2'')])] \<and>
   JList [JStr ''10'', JStr ''11'', JStr ''12''] \<noteq> JStr (encode_fs_list [''10'', ''11'', ''12''])"
proof -
  have n: "new_fs_list ''12'' (encode_fs_list [''10'', ''11'']) = [''10'', ''11'', ''12'']"
    using new_fs_list_encoded [of "[''10'', ''11'']" "''12''"] by simp
  have c: "call (net_code 0) K0 li0 s0 ''/ioclass/2''
             (Some (JObj [(''FSLIST'', JList [JStr ''10'', JStr ''11'', JStr ''12'']),
                          (''TYPE'', JInt 230), (''ID'', JStr ''2'')])) (Some ''PUT'') =
           (Inr (envelope 0 []),
            s0\<lparr>wire := [make_request s0 (fresh_headers @ [(''iBaseToken'', JStr ''t0'')]) ''/ioclass/2''
                (Some (JObj [(''FSLIST'', JList [JStr ''10'', JStr ''11'', JStr ''12'']),
                          (''TYPE'', JInt 230), (''ID'', JStr ''2'')])) ''PUT'' 52]\<rparr>)"
    using call_plain [of s0 "fresh_headers @ [(''iBaseToken'', JStr ''t0'')]" "Some ''PUT''" K0
          "net_code 0" "''/ioclass/2''" _ "envelope 0 []" "JInt 0" li0]
    by (simp add: s0_def effective_method_def truthy_str_def net_code_def result_of_def http_ok_def
        is_http_error_def envelope_code is_relogin_code_def K0_def)
  show ?thesis
    by (simp add: add_share_to_qos_def n c make_request_def)
qed

section \<open>The paginated scans\<close>

lemma make_request_wire [simp]:
  "make_request (s\<lparr>wire := w\<rparr>) hdrs p d m t = make_request s hdrs p d m t"
  by (simp add: make_request_def)

lemma call_answers:
  assumes "session s = Some hdrs"
    and "answers net K (make_request s hdrs p d ''GET'' (SOCKET_TIMEOUT K)) j"
    and "error_code j = Inr c" and "eq_int c 0"
    and "ERROR_CONNECT_TO_SERVER K \<noteq> 0" and "ERROR_UNAUTHORIZED_TO_SERVER K \<noteq> 0"
  shows "call net K li s p d (Some ''GET'') =
           (Inr j, s\<lparr>wire := wire s @ [make_request s hdrs p d ''GET'' (SOCKET_TIMEOUT K)]\<rparr>)"
proof -
  have m: "effective_method (Some ''GET'') = ''GET''"
    by (simp add: effective_method_def truthy_str_def)
  have "\<not> is_relogin_code K c"
    using assms(4-6) by (cases c) (auto simp: is_relogin_code_def split: if_splits)
  with call_plain [of s hdrs "Some ''GET''" K net p d j c li] assms show ?thesis
    by (simp add: m answers_def)
qed

lemma success_dataD:
  "success_data j d \<Longrightarrow> \<exists>c. error_code j = Inr c \<and> eq_int c 0 \<and> getitem j ''data'' = Inr d"
  by (auto simp: success_data_def split: sum.splits)

lemma getitem_dict_get: "getitem j k = Inr d \<Longrightarrow> dict_get j k dflt = Inr d"
  by (cases j) (auto split: option.splits)

lemma access_page_fetch:
  assumes "session s = Some hdrs"
    and "answers net K (access_page_request K s hdrs share_id ct vstore b) j"
    and "success_data j d"
    and "ERROR_CONNECT_TO_SERVER K \<noteq> 0" and "ERROR_UNAUTHORIZED_TO_SERVER K \<noteq> 0"
  shows "get_access_from_share_range net K li s share_id b ct vstore =
           (Inr d, s\<lparr>wire := wire s @ [access_page_request K s hdrs share_id ct vstore b]\<rparr>)"
proof -
  from success_dataD [OF assms(3)] obtain c where
    c: "error_code j = Inr c" "eq_int c 0" "getitem j ''data'' = Inr d" by blast
  from call_answers [OF assms(1) assms(2) [unfolded access_page_request_def] c(1,2) assms(4,5), of li]
  show ?thesis
    using c by (simp add: get_access_from_share_range_def access_page_request_def
        assert_rest_result_def getitem_dict_get)
qed

lemma scan_no_match:
  "no_access_named access_to items \<Longrightarrow> scan_access access_to items acc = Inr acc"
  by (induction items) (auto simp: no_access_named_def split: sum.splits)

lemma map_upt_shift: "map f [0..<Suc n] = f 0 # map (\<lambda>i. f (Suc i)) [0..<n]"
  by (simp add: map_upt_Suc del: upt_Suc)

lemma access_count_fetch:
  assumes "session s = Some hdrs"
    and "answers net K (access_count_request K s hdrs share_id ct vstore) j"
    and "success_count j n"
    and "ERROR_CONNECT_TO_SERVER K \<noteq> 0" and "ERROR_UNAUTHORIZED_TO_SERVER K \<noteq> 0"
  shows "get_access_count net K li s share_id ct vstore =
           (Inr n, s\<lparr>wire := wire s @ [access_count_request K s hdrs share_id ct vstore]\<rparr>)"
proof -
  from assms(3) obtain c where c: "error_code j = Inr c" "eq_int c 0" "count_of j = Inr n"
    by (auto simp: success_count_def split: sum.splits)
  from c(3) obtain d where d: "getitem j ''data'' = Inr d"
    by (auto simp: count_of_def split: sum.splits)
  from call_answers [OF assms(1) assms(2) [unfolded access_count_request_def] c(1,2) assms(4,5), of li]
  show ?thesis
    using c d by (simp add: get_access_count_def access_count_request_def assert_rest_result_def
        assert_data_in_result_def getitem_contains)
qed

lemma access_loop_no_match:
  assumes s: "session s = Some hdrs"
    and K: "ERROR_CONNECT_TO_SERVER K \<noteq> 0" "ERROR_UNAUTHORIZED_TO_SERVER K \<noteq> 0"
    and pages: "\<forall>b. \<exists>j items. answers net K (access_page_request K s hdrs share_id ct vstore b) j \<and>
                  success_data j (JList items) \<and> no_access_named access_to items"
  shows "access_loop net K li (s\<lparr>wire := w\<rparr>) share_id access_to ct vstore count b JNull =
           (Inr JNull,
            s\<lparr>wire := w @ map (\<lambda>i. access_page_request K s hdrs share_id ct vstore (b + 100 * int i))
                             [0..<nat ((count + 99) div 100)]\<rparr>)"
proof (induction "nat ((count + 99) div 100)" arbitrary: count b w)
  case 0
  then have "\<not> count > 0" by simp
  with 0 show ?case
    by (subst access_loop.simps) simp
next
  case (Suc n)
  then have pos: "count > 0" by (cases "count > 0") auto
  from Suc(2) have n: "n = nat ((count - 100 + 99) div 100)" by simp
  from pages obtain j items where
    p: "answers net K (access_page_request K s hdrs share_id ct vstore b) j"
       "success_data j (JList items)" "no_access_named access_to items"
    by blast
  have s': "session (s\<lparr>wire := w\<rparr>) = Some hdrs" using s by simp
  have fetch: "get_access_from_share_range net K li (s\<lparr>wire := w\<rparr>) share_id b ct vstore =
                 (Inr (JList items), s\<lparr>wire := w @ [access_page_request K s hdrs share_id ct vstore b]\<rparr>)"
    using access_page_fetch [OF s' _ p(2) K, of net share_id ct vstore b li] p(1)
    by (simp add: access_page_request_def)
  have "access_loop net K li (s\<lparr>wire := w\<rparr>) share_id access_to ct vstore count b JNull =
        access_loop net K li (s\<lparr>wire := w @ [access_page_request K s hdrs share_id ct vstore b]\<rparr>)
          share_id access_to ct vstore (count - 100) (b + 100) JNull"
    using pos by (subst access_loop.simps) (simp add: fetch scan_no_match [OF p(3)])
  also have "\<dots> = (Inr JNull,
            s\<lparr>wire := (w @ [access_page_request K s hdrs share_id ct vstore b]) @
               map (\<lambda>i. access_page_request K s hdrs share_id ct vstore (b + 100 + 100 * int i))
                             [0..<n]\<rparr>)"
    using Suc(1) [OF n] unfolding n by simp
  finally show ?case
    unfolding Suc(2) [symmetric] map_upt_shift by (simp add: algebra_simps)
qed


lemma share_count_fetch:
  assumes "session s = Some hdrs"
    and "answers net K (share_count_request K s hdrs ty) j"
    and "success_count j n"
    and "ERROR_CONNECT_TO_SERVER K \<noteq> 0" and "ERROR_UNAUTHORIZED_TO_SERVER K \<noteq> 0"
  shows "get_share_count net K li s ty =
           (Inr n, s\<lparr>wire := wire s @ [share_count_request K s hdrs ty]\<rparr>)"
proof -
  from assms(3) obtain c where c: "error_code j = Inr c" "eq_int c 0" "count_of j = Inr n"
    by (auto simp: success_count_def split: sum.splits)
  from call_answers [OF assms(1) assms(2) [unfolded share_count_request_def] c(1,2) assms(4,5), of li]
  show ?thesis
    using c by (simp add: get_share_count_def share_count_request_def assert_rest_result_def)
qed

lemma share_page_fetch:
  assumes "session s = Some hdrs"
    and "answers net K (share_page_request K s hdrs ty vstore b) j"
    and "success_data j (JList items)"
    and "ERROR_CONNECT_TO_SERVER K \<noteq> 0" and "ERROR_UNAUTHORIZED_TO_SERVER K \<noteq> 0"
  shows "get_share_by_name_range net K li s name b ty vstore =
           (find_share (get_share_path name) items,
            s\<lparr>wire := wire s @ [share_page_request K s hdrs ty vstore b]\<rparr>)"
proof -
  from success_dataD [OF assms(3)] obtain c where
    c: "error_code j = Inr c" "eq_int c 0" "getitem j ''data'' = Inr (JList items)" by blast
  from call_answers [OF assms(1) assms(2) [unfolded share_page_request_def] c(1,2) assms(4,5), of li]
  show ?thesis
    using c by (simp add: get_share_by_name_range_def share_page_request_def
        assert_rest_result_def getitem_dict_get)
qed

lemma find_no_share: "no_share_at p items \<Longrightarrow> find_share p items = Inr []"
  by (induction items) (auto simp: no_share_at_def split: sum.splits)

lemma share_loop_no_match:
  assumes s: "session s = Some hdrs"
    and K: "ERROR_CONNECT_TO_SERVER K \<noteq> 0" "ERROR_UNAUTHORIZED_TO_SERVER K \<noteq> 0"
    and pages: "\<forall>b. \<exists>j items. answers net K (share_page_request K s hdrs ty vstore b) j \<and>
                  success_data j (JList items) \<and> no_share_at (get_share_path name) items"
  shows "share_loop net K li (s\<lparr>wire := w\<rparr>) name ty vstore count b [] =
           (Inr [],
            s\<lparr>wire := w @ map (\<lambda>i. share_page_request K s hdrs ty vstore (b + 100 * int i))
                             [0..<nat (count div 100 + 1)]\<rparr>)"
proof (induction "nat (count div 100 + 1)" arbitrary: count b w)
  case 0
  then have "count < 0" by (cases "count < 0") auto
  with 0 show ?case
    by (subst share_loop.simps) simp
next
  case (Suc n)
  then have pos: "\<not> count < 0" by (cases "count < 0") auto
  from Suc(2) have n: "n = nat ((count - 100) div 100 + 1)" by simp
  from pages obtain j items where
    p: "answers net K (share_page_request K s hdrs ty vstore b) j"
       "success_data j (JList items)" "no_share_at (get_share_path name) items"
    by blast
  have s': "session (s\<lparr>wire := w\<rparr>) = Some hdrs" using s by simp
  have fetch: "get_share_by_name_range net K li (s\<lparr>wire := w\<rparr>) name b ty vstore =
                 (Inr [], s\<lparr>wire := w @ [share_page_request K s hdrs ty vstore b]\<rparr>)"
    using share_page_fetch [OF s' _ p(2) K, of net ty vstore b li name] p(1)
    by (simp add: share_page_request_def find_no_share [OF p(3)])
  have "share_loop net K li (s\<lparr>wire := w\<rparr>) name ty vstore count b [] =
        share_loop net K li (s\<lparr>wire := w @ [share_page_request K s hdrs ty vstore b]\<rparr>)
          name ty vstore (count - 100) (b + 100) []"
    using pos by (subst share_loop.simps) (simp add: fetch)
  also have "\<dots> = (Inr [],
            s\<lparr>wire := (w @ [share_page_request K s hdrs ty vstore b]) @
               map (\<lambda>i. share_page_request K s hdrs ty vstore (b + 100 + 100 * int i)) [0..<n]\<rparr>)"
    using Suc(1) [OF n] unfolding n by simp
  finally show ?case
    unfolding Suc(2) [symmetric] map_upt_shift by (simp add: algebra_simps)
qed


lemma page_begins_map: "map f (page_begins k) = map (\<lambda>i. f (0 + 100 * int i)) [0..<k]"
  by (simp add: page_begins_def comp_def)

lemma ceil_div: "(N + 99) div 100 = - ((- N) div 100)" for N :: int
proof -
  define q where "q = N div 100"
  define r where "r = N mod 100"
  have N: "N = 100 * q + r" and r: "0 \<le> r" "r < 100"
    by (simp_all add: q_def r_def)
  show ?thesis
  proof (cases "r = 0")
    case True
    have "(N + 99) div 100 = q"
      by (rule int_div_pos_eq [where r = 99]) (simp_all add: N True)
    moreover have "(- N) div 100 = - q"
      by (rule int_div_pos_eq [where r = 0]) (simp_all add: N True)
    ultimately show ?thesis by simp
  next
    case False
    have "(N + 99) div 100 = q + 1"
      using r False by (intro int_div_pos_eq [where r = "r - 1"]) (simp_all add: N)
    moreover have "(- N) div 100 = - q - 1"
      using r False by (intro int_div_pos_eq [where r = "100 - r"]) (simp_all add: N)
    ultimately show ?thesis by simp
  qed
qed

lemma zero_pages: "0 \<le> N \<Longrightarrow> (nat ((N + 99) div 100) = 0) = (N = 0)" for N :: int
proof -
  assume "0 \<le> N"
  have "0 < (N + 99) div 100 \<longleftrightarrow> 100 \<le> N + 99"
    by (rule pos_imp_zdiv_pos_iff) simp
  with \<open>0 \<le> N\<close> show ?thesis by auto
qed

lemma floor_pages: "0 \<le> N \<Longrightarrow> nat (N div 100 + 1) = nat (N div 100) + 1" for N :: int
  by (simp add: nat_add_distrib pos_imp_zdiv_nonneg_iff)

text \<open>
  C10. Let the array answer every query with code 0, report the count \<open>N \<ge> 0\<close>, and
  hold no match on any page. Then \<^verbatim>\<open>_get_share_by_name\<close> sends the count query and
  the pages that begin at 0, 100, 200 and so on, \<open>N div 100 + 1\<close> of them (one at least,
  also for \<open>N = 0\<close>), and returns the empty dictionary; \<^verbatim>\<open>_get_access_from_share\<close> sends
  the count query and \<open>(N + 99) div 100\<close> pages, the ceiling of \<open>N / 100\<close> (none for
  \<open>N = 0\<close>), and returns \<^verbatim>\<open>None\<close>. Both loops are total functions: the budget falls by
  100 with every page.
\<close>

theorem scans_page_counts:
  assumes "session s = Some hdrs"
    and "ERROR_CONNECT_TO_SERVER K \<noteq> 0" and "ERROR_UNAUTHORIZED_TO_SERVER K \<noteq> 0"
    and "0 \<le> N"
  shows "(answers net K (share_count_request K s hdrs ty) jc \<and> success_count jc N \<and>
          (\<forall>b. \<exists>j items. answers net K (share_page_request K s hdrs ty vstore b) j \<and>
                  success_data j (JList items) \<and> no_share_at (get_share_path name) items) \<longrightarrow>
            get_share_by_name net K li s name ty vstore =
              (Inr [],
               s\<lparr>wire := wire s @ share_count_request K s hdrs ty #
                    map (share_page_request K s hdrs ty vstore) (page_begins (nat (N div 100 + 1)))\<rparr>)) \<and>
         (get_share_client_type proto = Inr ct \<and>
          answers net K (access_count_request K s hdrs share_id ct vstore) jc' \<and> success_count jc' N \<and>
          (\<forall>b. \<exists>j items. answers net K (access_page_request K s hdrs share_id ct vstore b) j \<and>
                  success_data j (JList items) \<and> no_access_named access_to items) \<longrightarrow>
            get_access_from_share net K li s share_id access_to proto vstore =
              (Inr JNull,
               s\<lparr>wire := wire s @ access_count_request K s hdrs share_id ct vstore #
                    map (access_page_request K s hdrs share_id ct vstore)
                      (page_begins (nat ((N + 99) div 100)))\<rparr>)) \<and>
         length (page_begins (nat (N div 100 + 1))) = nat (N div 100) + 1 \<and>
         length (page_begins (nat ((N + 99) div 100))) = nat (- ((- N) div 100)) \<and>
         (length (page_begins (nat ((N + 99) div 100))) = 0 \<longleftrightarrow> N = 0)"
proof (intro conjI impI)
  assume a: "answers net K (share_count_request K s hdrs ty) jc \<and> success_count jc N \<and>
          (\<forall>b. \<exists>j items. answers net K (share_page_request K s hdrs ty vstore b) j \<and>
                  success_data j (JList items) \<and> no_share_at (get_share_path name) items)"
  have c: "get_share_count net K li s ty =
             (Inr N, s\<lparr>wire := wire s @ [share_count_request K s hdrs ty]\<rparr>)"
    using a assms by (intro share_count_fetch) auto
  have l: "share_loop net K li (s\<lparr>wire := wire s @ [share_count_request K s hdrs ty]\<rparr>)
             name ty vstore N 0 [] =
           (Inr [], s\<lparr>wire := (wire s @ [share_count_request K s hdrs ty]) @
              map (\<lambda>i. share_page_request K s hdrs ty vstore (0 + 100 * int i))
                [0..<nat (N div 100 + 1)]\<rparr>)"
    using a assms(1-3) by (intro share_loop_no_match) auto
  show "get_share_by_name net K li s name ty vstore =
              (Inr [],
               s\<lparr>wire := wire s @ share_count_request K s hdrs ty #
                    map (share_page_request K s hdrs ty vstore) (page_begins (nat (N div 100 + 1)))\<rparr>)"
    by (simp add: get_share_by_name_def c l page_begins_map del: share_loop.simps)
next
  assume a: "get_share_client_type proto = Inr ct \<and>
          answers net K (access_count_request K s hdrs share_id ct vstore) jc' \<and> success_count jc' N \<and>
          (\<forall>b. \<exists>j items. answers net K (access_page_request K s hdrs share_id ct vstore b) j \<and>
                  success_data j (JList items) \<and> no_access_named access_to items)"
  have c: "get_access_count net K li s share_id ct vstore =
             (Inr N, s\<lparr>wire := wire s @ [access_count_request K s hdrs share_id ct vstore]\<rparr>)"
    using a assms by (intro access_count_fetch) auto
  have l: "access_loop net K li (s\<lparr>wire := wire s @ [access_count_request K s hdrs share_id ct vstore]\<rparr>)
             share_id access_to ct vstore N 0 JNull =
           (Inr JNull, s\<lparr>wire := (wire s @ [access_count_request K s hdrs share_id ct vstore]) @
              map (\<lambda>i. access_page_request K s hdrs share_id ct vstore (0 + 100 * int i))
                [0..<nat ((N + 99) div 100)]\<rparr>)"
    using a assms(1-3) by (intro access_loop_no_match) auto
  show "get_access_from_share net K li s share_id access_to proto vstore =
              (Inr JNull,
               s\<lparr>wire := wire s @ access_count_request K s hdrs share_id ct vstore #
                    map (access_page_request K s hdrs share_id ct vstore)
                      (page_begins (nat ((N + 99) div 100)))\<rparr>)"
    using a by (simp add: get_access_from_share_def c l page_begins_map del: access_loop.simps)
next
  show "length (page_begins (nat (N div 100 + 1))) = nat (N div 100) + 1"
    using floor_pages [OF assms(4)] by (simp add: page_begins_def)
next
  show "length (page_begins (nat ((N + 99) div 100))) = nat (- ((- N) div 100))"
    by (simp add: page_begins_def ceil_div)
next
  show "length (page_begins (nat ((N + 99) div 100))) = 0 \<longleftrightarrow> N = 0"
    using zero_pages [OF assms(4)] by (simp add: page_begins_def)
qed




lemma s0_session: "session s0 = Some (fresh_headers @ [(''iBaseToken'', JStr ''t0'')])"
  by (simp add: s0_def)

lemma K0_codes: "ERROR_CONNECT_TO_SERVER K0 \<noteq> 0" "ERROR_UNAUTHORIZED_TO_SERVER K0 \<noteq> 0"
  by (simp_all add: K0_def)

lemma page_body_data: "success_data (page_body items) (JList items)"
  by (simp add: success_data_def page_body_def envelope_def error_code_def)

lemma sample_urls:
  "req_url (access_count_request K0 s0 hdrs ''7'' ''NFS_SHARE_AUTH_CLIENT'' None) =
     ''http://a/21/NFS_SHARE_AUTH_CLIENT/count?filter=PARENTID::7''"
  "req_url (access_page_request K0 s0 hdrs ''7'' ''NFS_SHARE_AUTH_CLIENT'' None b) =
     ''http://a/21/NFS_SHARE_AUTH_CLIENT?filter=PARENTID::7&range=['' @ str_int b @ ''-'' @
       str_int (b + 100) @ '']''"
  "req_url (share_count_request K0 s0 hdrs ''NFSHARE'') = ''http://a/21/NFSHARE/count''"
  "req_url (share_page_request K0 s0 hdrs ''NFSHARE'' None b) =
     ''http://a/21/NFSHARE?range=['' @ str_int b @ ''-'' @ str_int (b + 100) @ '']''"
  by (simp_all add: access_count_request_def access_page_request_def share_count_request_def
        share_page_request_def make_request_def s0_def truthy_str_def access_range_url_def
        share_range_url_def)

lemma sample_numbers:
  "str_int 0 = ''0''" "str_int 100 = ''100''" "str_int 200 = ''200''" "str_int 300 = ''300''"
  by code_simp+

lemma empty_pages_answers:
  "answers (net_empty_pages n) K0 (access_count_request K0 s0 hdrs ''7'' ''NFS_SHARE_AUTH_CLIENT'' None)
     (count_body n)"
  "answers (net_empty_pages n) K0 (share_count_request K0 s0 hdrs ''NFSHARE'') (count_body n)"
  "answers (net_empty_pages n) K0 (access_page_request K0 s0 hdrs ''7'' ''NFS_SHARE_AUTH_CLIENT'' None b)
     (page_body [])"
  "answers (net_empty_pages n) K0 (share_page_request K0 s0 hdrs ''NFSHARE'' None b) (page_body [])"
  by (simp_all add: answers_def net_empty_pages_def sample_urls result_of_def http_ok_def
        is_http_error_def)

lemma sample_counts:
  "success_count (count_body ''250'') 250" "success_count (count_body ''200'') 200"
  "success_count (count_body ''0'') 0"
  by code_simp+






theorem scans_page_counts_witness:
  "map req_url (wire (snd (get_share_by_name (net_empty_pages ''200'') K0 li0 s0 ''share-1''
                             ''NFSHARE'' None))) =
     [''http://a/21/NFSHARE/count'', ''http://a/21/NFSHARE?range=[0-100]'',
      ''http://a/21/NFSHARE?range=[100-200]'', ''http://a/21/NFSHARE?range=[200-300]''] \<and>
   map req_url (wire (snd (get_access_from_share (net_empty_pages ''200'') K0 li0 s0 ''7''
                             ''host150'' ''NFS'' None))) =
     [''http://a/21/NFS_SHARE_AUTH_CLIENT/count?filter=PARENTID::7'',
      ''http://a/21/NFS_SHARE_AUTH_CLIENT?filter=PARENTID::7&range=[0-100]'',
      ''http://a/21/NFS_SHARE_AUTH_CLIENT?filter=PARENTID::7&range=[100-200]''] \<and>
   map req_url (wire (snd (get_share_by_name (net_empty_pages ''0'') K0 li0 s0 ''share-1''
                             ''NFSHARE'' None))) =
     [''http://a/21/NFSHARE/count'', ''http://a/21/NFSHARE?range=[0-100]''] \<and>
   map req_url (wire (snd (get_access_from_share (net_empty_pages ''0'') K0 li0 s0 ''7''
                             ''host150'' ''NFS'' None))) =
     [''http://a/21/NFS_SHARE_AUTH_CLIENT/count?filter=PARENTID::7'']"
proof -
  let ?H = "fresh_headers @ [(''iBaseToken'', JStr ''t0'')]"
  let ?ct = "''NFS_SHARE_AUTH_CLIENT''"
  have ct: "get_share_client_type ''NFS'' = Inr ?ct"
    by (simp add: get_share_client_type_def)
  have sp: "\<forall>b. \<exists>j items. answers (net_empty_pages n) K0 (share_page_request K0 s0 ?H ''NFSHARE'' None b) j \<and>
                  success_data j (JList items) \<and> no_share_at (get_share_path ''share-1'') items" for n
    by (intro allI exI [of _ "page_body []"] exI [of _ "[]"])
       (simp add: empty_pages_answers page_body_data no_share_at_def)
  have ap: "\<forall>b. \<exists>j items. answers (net_empty_pages n) K0 (access_page_request K0 s0 ?H ''7'' ?ct None b) j \<and>
                  success_data j (JList items) \<and> no_access_named ''host150'' items" for n
    by (intro allI exI [of _ "page_body []"] exI [of _ "[]"])
       (simp add: empty_pages_answers page_body_data no_access_named_def)
  have le: "(0::int) \<le> 200" "(0::int) \<le> 0" by simp_all
  have s200: "get_share_by_name (net_empty_pages ''200'') K0 li0 s0 ''share-1'' ''NFSHARE'' None =
      (Inr [], s0\<lparr>wire := wire s0 @ share_count_request K0 s0 ?H ''NFSHARE'' #
          map (share_page_request K0 s0 ?H ''NFSHARE'' None) (page_begins (nat (200 div 100 + 1)))\<rparr>)"
    by (rule scans_page_counts [where jc = "count_body ''200''", OF s0_session K0_codes le(1), THEN conjunct1, THEN mp])
       (intro conjI empty_pages_answers sample_counts sp)
  have a200: "get_access_from_share (net_empty_pages ''200'') K0 li0 s0 ''7'' ''host150'' ''NFS'' None =
      (Inr JNull, s0\<lparr>wire := wire s0 @ access_count_request K0 s0 ?H ''7'' ?ct None #
          map (access_page_request K0 s0 ?H ''7'' ?ct None) (page_begins (nat ((200 + 99) div 100)))\<rparr>)"
    by (rule scans_page_counts [where jc' = "count_body ''200''", OF s0_session K0_codes le(1), THEN conjunct2, THEN conjunct1, THEN mp])
       (intro conjI ct empty_pages_answers sample_counts ap)
  have s0': "get_share_by_name (net_empty_pages ''0'') K0 li0 s0 ''share-1'' ''NFSHARE'' None =
      (Inr [], s0\<lparr>wire := wire s0 @ share_count_request K0 s0 ?H ''NFSHARE'' #
          map (share_page_request K0 s0 ?H ''NFSHARE'' None) (page_begins (nat (0 div 100 + 1)))\<rparr>)"
    by (rule scans_page_counts [where jc = "count_body ''0''", OF s0_session K0_codes le(2), THEN conjunct1, THEN mp])
       (intro conjI empty_pages_answers sample_counts sp)
  have a0: "get_access_from_share (net_empty_pages ''0'') K0 li0 s0 ''7'' ''host150'' ''NFS'' None =
      (Inr JNull, s0\<lparr>wire := wire s0 @ access_count_request K0 s0 ?H ''7'' ?ct None #
          map (access_page_request K0 s0 ?H ''7'' ?ct None) (page_begins (nat ((0 + 99) div 100)))\<rparr>)"
    by (rule scans_page_counts [where jc' = "count_body ''0''", OF s0_session K0_codes le(2), THEN conjunct2, THEN conjunct1, THEN mp])
       (intro conjI ct empty_pages_answers sample_counts ap)
  have w: "wire s0 = []" by (simp add: s0_def)
  have n: "page_begins 0 = []" "page_begins (Suc 0) = [0]" "page_begins 2 = [0, 100]" "page_begins 3 = [0, 100, 200]"
    by code_simp+
  show ?thesis
    unfolding s200 a200 s0' a0
    by (simp add: w n sample_urls sample_numbers)
qed

end
